theory Spec2Isabelle
  imports Complex_Main "HOL-Library.AList"
begin

section \<open>The canvas manager of the control-layers editor\<close>

text \<open>
  A shallow embedding of \<^verbatim>\<open>CanvasManager.ts\<close>
  (\<^verbatim>\<open>features/controlLayers/konva\<close>). The manager keeps three \<^verbatim>\<open>Map\<close>s of
  entity adapters in step with the snapshots of the application store, orders their
  scene-graph layers, resolves the selected entity, owns the transform target and
  correlates bounding-box requests with the answers of a worker.

  Conventions of the model.
  \<^item> JavaScript numbers are only copied by the modelled code, never computed with;
    they are values of type \<open>real\<close>.
  \<^item> A JavaScript \<^verbatim>\<open>Map\<close> is an association list in insertion order:
    \<^verbatim>\<open>get\<close> is \<open>map_of\<close>, \<^verbatim>\<open>set\<close> is \<open>AList.update\<close> (a present key keeps its
    place, a new key goes last), \<^verbatim>\<open>delete\<close> is \<open>AList.delete\<close>.
  \<^item> A mutable object kept in a \<^verbatim>\<open>Map\<close> is a record stored under its key
    together with the number of the instance (\<open>adapter_inst\<close>), handed out by a
    counter at every \<^verbatim>\<open>new\<close>; a method that mutates the object rewrites the entry.
  \<^item> Every call that leaves the manager (adapter methods, value channels, the
    worker, the logger) is appended to the list \<open>effects\<close>, in program order.
  \<^item> Inside one pass of \<^verbatim>\<open>render\<close>, \<^verbatim>\<open>await\<close> is sequencing. Passes that
    overlap are modelled apart, in the subsection on overlapping passes.
  \<^item> \<^verbatim>\<open>this.stateApi.getState()\<close> is the argument \<open>s\<close> of the functions that
    read the store.
\<close>

subsection \<open>Data model\<close>

datatype EntityType = layer | control_adapter | regional_guidance | inpaint_mask

record RgbaColor =
  rgba_r :: real
  rgba_g :: real
  rgba_b :: real
  rgba_a :: real

record CanvasEntityIdentifier =
  ident_id :: string
  ident_type :: EntityType

text \<open>
  The entity states (\<^verbatim>\<open>CanvasLayerState\<close>, \<^verbatim>\<open>CanvasControlAdapterState\<close>,
  \<^verbatim>\<open>CanvasRegionalGuidanceState\<close>, \<^verbatim>\<open>CanvasInpaintMaskState\<close>) as the run-time
  objects they are: the fields the manager reads (\<^verbatim>\<open>id\<close>, \<^verbatim>\<open>type\<close>, \<^verbatim>\<open>fill\<close>)
  and \<open>state_rest\<close> for everything else (geometry, drawn objects, opacity).
  The manager reads \<^verbatim>\<open>fill\<close> only of regional-guidance and inpaint-mask states.
\<close>

record CanvasEntityState =
  state_id :: string
  state_type :: EntityType
  state_fill :: RgbaColor
  state_rest :: nat

record Tool =
  tool_selected :: string
  tool_fill :: RgbaColor

text \<open>
  A snapshot \<^verbatim>\<open>CanvasV2State\<close>. The fields ending in \<open>_ref\<close> are the identities
  of the objects that \<^verbatim>\<open>render\<close> compares with \<^verbatim>\<open>===\<close> and \<^verbatim>\<open>!==\<close>:
  the snapshot itself, \<^verbatim>\<open>layers.entities\<close>, \<^verbatim>\<open>controlAdapters.entities\<close>,
  \<^verbatim>\<open>regions.entities\<close>, \<^verbatim>\<open>inpaintMask\<close>, \<^verbatim>\<open>initialImage\<close>, \<^verbatim>\<open>bbox\<close>,
  \<^verbatim>\<open>bbox.rect\<close> and \<^verbatim>\<open>session\<close>. Strings, numbers and booleans are compared by value.
\<close>

record CanvasV2State =
  st_ref :: nat
  st_layers_entities_ref :: nat
  st_layers_entities :: "CanvasEntityState list"
  st_controlAdapters_entities_ref :: nat
  st_controlAdapters_entities :: "CanvasEntityState list"
  st_regions_entities_ref :: nat
  st_regions_entities :: "CanvasEntityState list"
  st_inpaintMask_ref :: nat
  st_inpaintMask :: CanvasEntityState
  st_initialImage_ref :: nat
  st_bbox_ref :: nat
  st_bbox_rect_ref :: nat
  st_session_ref :: nat
  st_session_isActive :: bool
  st_tool :: Tool
  st_settings_maskOpacity :: real
  st_selectedEntityIdentifier :: "CanvasEntityIdentifier option"

text \<open>
  Modelled from the spec: the adapter classes \<^verbatim>\<open>CanvasLayer\<close>,
  \<^verbatim>\<open>CanvasControlAdapter\<close>, \<^verbatim>\<open>CanvasRegion\<close> and \<^verbatim>\<open>CanvasInpaintMask\<close> are not
  part of the sources at hand. An adapter owns the renderable representation of one
  entity id, carries the type tag of its variant, and takes the current entity
  state at every update. \<open>adapter_type\<close> is the variant (the class, and the
  \<^verbatim>\<open>type\<close> tag it declares), \<open>adapter_state\<close> the state last handed to the
  adapter, \<open>adapter_zIndex\<close> the last value given to \<^verbatim>\<open>konva.layer.zIndex\<close>.
\<close>

record Adapter =
  adapter_id :: string
  adapter_type :: EntityType
  adapter_inst :: nat
  adapter_state :: CanvasEntityState
  adapter_zIndex :: nat

definition new_adapter :: "EntityType \<Rightarrow> CanvasEntityState \<Rightarrow> nat \<Rightarrow> Adapter" where
  "new_adapter kind entity n =
     \<lparr>adapter_id = state_id entity, adapter_type = kind, adapter_inst = n,
      adapter_state = entity, adapter_zIndex = 0\<rparr>"

record EntityStateAndAdapter =
  esa_state :: CanvasEntityState
  esa_adapter :: Adapter

record Extents =
  minX :: real
  minY :: real
  maxX :: real
  maxY :: real

text \<open>
  A \<^verbatim>\<open>GetBboxTask\<close>: \<^verbatim>\<open>{type: 'get_bbox', data: {...data, id}}\<close>. The raster
  buffer is a list of bytes.
\<close>

record GetBboxTask =
  task_type :: string
  task_buffer :: "nat list"
  task_id :: string

text \<open>The messages of the worker: \<^verbatim>\<open>WorkerLogMessage\<close> (level, context, message) and \<^verbatim>\<open>ExtentsResult\<close>.\<close>

datatype WorkerMessage =
    LogMessage string "string option" string
  | ExtentsResult string "Extents option"

datatype Effect =
    Log string
  | WorkerLog string "string option" string
  | New EntityType string nat
  | StageAdd nat
  | Update nat CanvasEntityState Tool bool
  | Render nat CanvasEntityState
  | Destroy EntityType string nat
  | TransformerStart nat
  | TransformerApply nat
  | TransformerStop nat
  | RenderInitialImage
  | RenderBbox
  | RenderStagingArea
  | Publish_toolState Tool
  | Publish_selectedEntityIdentifier "CanvasEntityIdentifier option"
  | Publish_selectedEntity "EntityStateAndAdapter option"
  | Publish_currentFill RgbaColor
  | Publish_transformingEntity "CanvasEntityIdentifier option"
  | PostMessage GetBboxTask
  | OnComplete nat "Extents option"

datatype error = AssertionError string

text \<open>
  The fields of the manager that the modelled methods read or write.
  \<open>transformingEntity\<close> is the current value of the channel of that name;
  the other channels are written only, so their \<^verbatim>\<open>publish\<close> calls are effects.
  A completion callback of a bounding-box task is a number that names it.
\<close>

record CanvasManager =
  layers :: "(string \<times> Adapter) list"
  controlAdapters :: "(string \<times> Adapter) list"
  regions :: "(string \<times> Adapter) list"
  inpaintMask :: Adapter
  background_zIndex :: nat
  initialImage_zIndex :: nat
  preview_zIndex :: nat
  transformingEntity :: "CanvasEntityIdentifier option"
  prevState :: CanvasV2State
  isFirstRender :: bool
  tasks :: "(string \<times> (GetBboxTask \<times> nat)) list"
  next_inst :: nat
  effects :: "Effect list"

definition emit :: "Effect list \<Rightarrow> CanvasManager \<Rightarrow> CanvasManager" where
  "emit es m = m\<lparr>effects := effects m @ es\<rparr>"

text \<open>
  Modelled from the spec: the constant \<^verbatim>\<open>RGBA_WHITE\<close> of
  \<^verbatim>\<open>features/controlLayers/store/types\<close> is opaque white.
\<close>

definition RGBA_WHITE :: RgbaColor where
  "RGBA_WHITE = \<lparr>rgba_r = 255, rgba_g = 255, rgba_b = 255, rgba_a = 1\<rparr>"

subsection \<open>Resolving the selected entity\<close>

text \<open>
  \<^verbatim>\<open>getEntity\<close>. \<open>entityState\<close> and \<open>entityAdapter\<close> are the two local
  variables of that name after the chain of \<^verbatim>\<open>if\<close>s on the type of the
  identifier (\<open>None\<close> is \<^verbatim>\<open>null\<close>). The pair is returned when both exist and
  their type tags agree, \<^verbatim>\<open>null\<close> otherwise. The method has no \<^verbatim>\<open>throw\<close> and
  no \<^verbatim>\<open>assert\<close>.
\<close>

definition entityState :: "CanvasV2State \<Rightarrow> CanvasEntityIdentifier \<Rightarrow> CanvasEntityState option" where
  "entityState s identifier =
     (case ident_type identifier of
        layer \<Rightarrow> find (\<lambda>i. state_id i = ident_id identifier) (st_layers_entities s)
      | control_adapter \<Rightarrow> find (\<lambda>i. state_id i = ident_id identifier) (st_controlAdapters_entities s)
      | regional_guidance \<Rightarrow> find (\<lambda>i. state_id i = ident_id identifier) (st_regions_entities s)
      | inpaint_mask \<Rightarrow> Some (st_inpaintMask s))"

definition entityAdapter :: "CanvasManager \<Rightarrow> CanvasEntityIdentifier \<Rightarrow> Adapter option" where
  "entityAdapter m identifier =
     (case ident_type identifier of
        layer \<Rightarrow> map_of (layers m) (ident_id identifier)
      | control_adapter \<Rightarrow> map_of (controlAdapters m) (ident_id identifier)
      | regional_guidance \<Rightarrow> map_of (regions m) (ident_id identifier)
      | inpaint_mask \<Rightarrow> Some (inpaintMask m))"

definition getEntity ::
  "CanvasV2State \<Rightarrow> CanvasEntityIdentifier \<Rightarrow> CanvasManager \<Rightarrow> EntityStateAndAdapter option" where
  "getEntity s identifier m =
     (case (entityState s identifier, entityAdapter m identifier) of
        (Some st, Some ad) \<Rightarrow>
          if state_type st = adapter_type ad
          then Some \<lparr>esa_state = st, esa_adapter = ad\<rparr>
          else None
      | _ \<Rightarrow> None)"

definition getSelectedEntity :: "CanvasV2State \<Rightarrow> CanvasManager \<Rightarrow> EntityStateAndAdapter option" where
  "getSelectedEntity s m =
     (case st_selectedEntityIdentifier s of
        Some identifier \<Rightarrow> getEntity s identifier m
      | None \<Rightarrow> None)"

definition getCurrentFill :: "CanvasV2State \<Rightarrow> CanvasManager \<Rightarrow> RgbaColor" where
  "getCurrentFill s m =
     (let currentFill = tool_fill (st_tool s) in
      case getSelectedEntity s m of
        Some selectedEntity \<Rightarrow>
          if state_type (esa_state selectedEntity) = regional_guidance
             \<or> state_type (esa_state selectedEntity) = inpaint_mask
          then RGBA_WHITE
          else currentFill
      | None \<Rightarrow> currentFill)"

definition getBrushPreviewFill :: "CanvasV2State \<Rightarrow> CanvasManager \<Rightarrow> RgbaColor" where
  "getBrushPreviewFill s m =
     (let currentFill = tool_fill (st_tool s) in
      case getSelectedEntity s m of
        Some selectedEntity \<Rightarrow>
          if state_type (esa_state selectedEntity) = regional_guidance
             \<or> state_type (esa_state selectedEntity) = inpaint_mask
          then (state_fill (esa_state selectedEntity))\<lparr>rgba_a := st_settings_maskOpacity s\<rparr>
          else currentFill
      | None \<Rightarrow> currentFill)"

subsection \<open>The transform target\<close>

text \<open>
  Modelled from the spec: the value channel \<^verbatim>\<open>PubSub\<close> of
  \<^verbatim>\<open>common/util/PubSub\<close> holds one current value and an equality function;
  \<^verbatim>\<open>publish\<close> keeps the current value when the new one is equal to it and
  replaces it (notifying the subscribers) otherwise. The channel
  \<^verbatim>\<open>transformingEntity\<close> is built without an equality function of its own;
  its values are compared with \<open>=\<close>.
\<close>

definition publish :: "('a \<Rightarrow> 'a \<Rightarrow> bool) \<Rightarrow> 'a \<Rightarrow> 'a \<Rightarrow> 'a" where
  "publish equal current new = (if equal current new then current else new)"

definition publish_transformingEntity ::
  "CanvasEntityIdentifier option \<Rightarrow> CanvasManager \<Rightarrow> CanvasManager" where
  "publish_transformingEntity v m =
     emit [Publish_transformingEntity v]
       (m\<lparr>transformingEntity := publish (=) (transformingEntity m) v\<rparr>)"

definition getTransformingLayer :: "CanvasManager \<Rightarrow> Adapter option" where
  "getTransformingLayer m =
     (case transformingEntity m of
        None \<Rightarrow> None
      | Some te \<Rightarrow>
          (case ident_type te of
             layer \<Rightarrow> map_of (layers m) (ident_id te)
           | inpaint_mask \<Rightarrow> Some (inpaintMask m)
           | _ \<Rightarrow> None))"

definition getIsTransforming :: "CanvasManager \<Rightarrow> bool" where
  "getIsTransforming m = (transformingEntity m \<noteq> None)"

text \<open>
  \<^verbatim>\<open>startTransform\<close>. The assertion of \<^verbatim>\<open>tsafe\<close> throws when its condition is
  false; \<^verbatim>\<open>instanceof CanvasLayer\<close> and \<^verbatim>\<open>instanceof CanvasInpaintMask\<close> test
  the variant of the adapter.
\<close>

definition startTransform :: "CanvasV2State \<Rightarrow> CanvasManager \<Rightarrow> error + CanvasManager" where
  "startTransform s m =
     (if getIsTransforming m then Inr m
      else
        case getSelectedEntity s m of
          None \<Rightarrow> Inl (AssertionError ''No selected layer'')
        | Some sel \<Rightarrow>
            if adapter_type (esa_adapter sel) = layer \<or> adapter_type (esa_adapter sel) = inpaint_mask
            then Inr (publish_transformingEntity
                        (Some \<lparr>ident_id = state_id (esa_state sel),
                               ident_type = state_type (esa_state sel)\<rparr>)
                        (emit [TransformerStart (adapter_inst (esa_adapter sel))] m))
            else Inl (AssertionError ''No selected layer''))"

definition applyTransform :: "CanvasManager \<Rightarrow> CanvasManager" where
  "applyTransform m =
     publish_transformingEntity None
       (case getTransformingLayer m of
          Some l \<Rightarrow> emit [TransformerApply (adapter_inst l)] m
        | None \<Rightarrow> m)"

definition cancelTransform :: "CanvasManager \<Rightarrow> CanvasManager" where
  "cancelTransform m =
     publish_transformingEntity None
       (case getTransformingLayer m of
          Some l \<Rightarrow> emit [TransformerStop (adapter_inst l)] m
        | None \<Rightarrow> m)"

subsection \<open>Bounding-box tasks\<close>

text \<open>
  \<^verbatim>\<open>requestBbox\<close>: the id that \<^verbatim>\<open>nanoid()\<close> generates is the argument \<open>tid\<close>.
  \<^verbatim>\<open>onmessage\<close> is the handler installed on the worker in the constructor; the
  call of a completion callback is an effect, and the callback is taken to return.
\<close>

definition requestBbox :: "string \<Rightarrow> nat list \<Rightarrow> nat \<Rightarrow> CanvasManager \<Rightarrow> CanvasManager" where
  "requestBbox tid buffer onComplete m =
     (let task = \<lparr>task_type = ''get_bbox'', task_buffer = buffer, task_id = tid\<rparr>
      in emit [PostMessage task] (m\<lparr>tasks := AList.update tid (task, onComplete) (tasks m)\<rparr>))"

definition onmessage :: "WorkerMessage \<Rightarrow> CanvasManager \<Rightarrow> CanvasManager" where
  "onmessage msg m =
     (case msg of
        LogMessage level ctx message \<Rightarrow> emit [WorkerLog level ctx message] m
      | ExtentsResult tid extents \<Rightarrow>
          (case map_of (tasks m) tid of
             None \<Rightarrow> m
           | Some (task, onComplete) \<Rightarrow>
               (emit [OnComplete onComplete extents] m)\<lparr>tasks := AList.delete tid (tasks m)\<rparr>))"

text \<open>The events of the task channel, for runs of several requests and answers.\<close>

datatype TaskEvent =
    Request string "nat list" nat
  | Message WorkerMessage

fun task_step :: "CanvasManager \<Rightarrow> TaskEvent \<Rightarrow> CanvasManager" where
  "task_step m (Request tid buffer onComplete) = requestBbox tid buffer onComplete m"
| "task_step m (Message msg) = onmessage msg m"

fun mentions :: "string \<Rightarrow> TaskEvent \<Rightarrow> bool" where
  "mentions tid (Request tid' buffer onComplete) = (tid' = tid)"
| "mentions tid (Message (ExtentsResult tid' extents)) = (tid' = tid)"
| "mentions tid (Message (LogMessage level ctx message)) = False"

subsection \<open>Reconciling a collection of adapters\<close>

text \<open>
  The three collections are reconciled by the same two loops: in \<^verbatim>\<open>render\<close> for
  the layers, in \<^verbatim>\<open>renderControlAdapters\<close> and in \<^verbatim>\<open>renderRegions\<close>. They differ
  in the class that is instantiated (\<open>kind\<close>) and in the call that brings the
  adapter up to date (\<open>upd\<close>: \<^verbatim>\<open>update\<close> for a layer, \<^verbatim>\<open>render\<close> for the others).

  \<open>destroy_loop\<close> is \<^verbatim>\<open>for (const a of map.values()) if (!entities.find(e => e.id === a.id))
  { a.destroy(); map.delete(a.id) }\<close>. Its second argument is what the iterator
  has still to visit: an entry deleted from a \<^verbatim>\<open>Map\<close> before the iterator reaches it
  is not visited.
\<close>

function destroy_loop ::
  "EntityType \<Rightarrow> CanvasEntityState list \<Rightarrow> (string \<times> Adapter) list \<Rightarrow>
   (string \<times> Adapter) list \<times> Effect list \<Rightarrow> (string \<times> Adapter) list \<times> Effect list" where
  "destroy_loop kind entities [] (al, effs) = (al, effs)"
| "destroy_loop kind entities ((k, v) # rest) (al, effs) =
     (if find (\<lambda>e. state_id e = adapter_id v) entities = None
      then destroy_loop kind entities (AList.delete (adapter_id v) rest)
             (AList.delete (adapter_id v) al, effs @ [Destroy kind (adapter_id v) (adapter_inst v)])
      else destroy_loop kind entities rest (al, effs))"
  by pat_completeness auto
termination
  by (relation "measure (\<lambda>(kind, entities, rest, acc). length rest)")
     (auto simp: less_Suc_eq_le length_delete_le)

text \<open>
  \<open>create_loop\<close> is \<^verbatim>\<open>for (const entity of entities) { let adapter = map.get(entity.id);
  if (!adapter) { adapter = new C(entity, this); map.set(adapter.id, adapter);
  this.stage.add(adapter.konva.layer) } await adapter.update(entity) }\<close>.
\<close>

fun create_loop ::
  "EntityType \<Rightarrow> (CanvasEntityState \<Rightarrow> nat \<Rightarrow> Effect) \<Rightarrow> CanvasEntityState list \<Rightarrow>
   (string \<times> Adapter) list \<times> nat \<times> Effect list \<Rightarrow> (string \<times> Adapter) list \<times> nat \<times> Effect list" where
  "create_loop kind upd [] acc = acc"
| "create_loop kind upd (entity # entities) (al, n, effs) =
     (case map_of al (state_id entity) of
        Some adapter \<Rightarrow>
          create_loop kind upd entities
            (AList.update (state_id entity) (adapter\<lparr>adapter_state := entity\<rparr>) al, n,
             effs @ [upd entity (adapter_inst adapter)])
      | None \<Rightarrow>
          (let adapter = new_adapter kind entity n in
           create_loop kind upd entities
             (AList.update (adapter_id adapter) (adapter\<lparr>adapter_state := entity\<rparr>) al, Suc n,
              effs @ [New kind (adapter_id adapter) n, StageAdd n, upd entity n])))"

definition reconcile ::
  "EntityType \<Rightarrow> (CanvasEntityState \<Rightarrow> nat \<Rightarrow> Effect) \<Rightarrow> CanvasEntityState list \<Rightarrow>
   (string \<times> Adapter) list \<times> nat \<Rightarrow> (string \<times> Adapter) list \<times> nat \<times> Effect list" where
  "reconcile kind upd entities = (\<lambda>(al, n).
     (let (al', effs) = destroy_loop kind entities al (al, [])
      in create_loop kind upd entities (al', n, effs)))"

text \<open>\<^verbatim>\<open>state.selectedEntityIdentifier?.id\<close>: \<open>None\<close> is \<^verbatim>\<open>undefined\<close>.\<close>

definition selected_id :: "CanvasV2State \<Rightarrow> string option" where
  "selected_id s = map_option ident_id (st_selectedEntityIdentifier s)"

definition renderLayers :: "CanvasV2State \<Rightarrow> CanvasManager \<Rightarrow> CanvasManager" where
  "renderLayers s m =
     (let (al, n, effs) =
        reconcile layer (\<lambda>e i. Update i e (st_tool s) (selected_id s = Some (state_id e)))
          (st_layers_entities s) (layers m, next_inst m)
      in emit effs (m\<lparr>layers := al, next_inst := n\<rparr>))"

definition renderRegions :: "CanvasV2State \<Rightarrow> CanvasManager \<Rightarrow> CanvasManager" where
  "renderRegions s m =
     (let (al, n, effs) =
        reconcile regional_guidance (\<lambda>e i. Render i e)
          (st_regions_entities s) (regions m, next_inst m)
      in emit effs (m\<lparr>regions := al, next_inst := n\<rparr>))"

definition renderControlAdapters :: "CanvasV2State \<Rightarrow> CanvasManager \<Rightarrow> CanvasManager" where
  "renderControlAdapters s m =
     (let (al, n, effs) =
        reconcile control_adapter (\<lambda>e i. Render i e)
          (st_controlAdapters_entities s) (controlAdapters m, next_inst m)
      in emit effs (m\<lparr>controlAdapters := al, next_inst := n\<rparr>))"

subsection \<open>Z-order\<close>

text \<open>
  One loop of \<^verbatim>\<open>arrangeEntities\<close>:
  \<^verbatim>\<open>for (const e of entities) map.get(e.id)?.konva.layer.zIndex(++zIndex)\<close>.
  The optional chain skips the call, and with it the increment in its argument,
  when the collection has no adapter for the id. The scene-graph library is not
  part of the repository: a call \<^verbatim>\<open>zIndex(n)\<close> is recorded as the value \<open>n\<close>
  it is given.
\<close>

fun arrange_loop ::
  "CanvasEntityState list \<Rightarrow> (string \<times> Adapter) list \<times> nat \<Rightarrow> (string \<times> Adapter) list \<times> nat" where
  "arrange_loop [] (al, zIndex) = (al, zIndex)"
| "arrange_loop (e # es) (al, zIndex) =
     (case map_of al (state_id e) of
        None \<Rightarrow> arrange_loop es (al, zIndex)
      | Some adapter \<Rightarrow>
          arrange_loop es
            (AList.update (state_id e) (adapter\<lparr>adapter_zIndex := Suc zIndex\<rparr>) al, Suc zIndex))"

definition arrangeEntities :: "CanvasV2State \<Rightarrow> CanvasManager \<Rightarrow> CanvasManager" where
  "arrangeEntities s m =
     (let zIndex = 0;
          background_z = Suc zIndex;
          initialImage_z = Suc background_z;
          (ls, z1) = arrange_loop (st_layers_entities s) (layers m, initialImage_z);
          (cas, z2) = arrange_loop (st_controlAdapters_entities s) (controlAdapters m, z1);
          (rgs, z3) = arrange_loop (st_regions_entities s) (regions m, z2);
          inpaintMask_z = Suc z3;
          preview_z = Suc inpaintMask_z
      in m\<lparr>background_zIndex := background_z,
            initialImage_zIndex := initialImage_z,
            layers := ls, controlAdapters := cas, regions := rgs,
            inpaintMask := (inpaintMask m)\<lparr>adapter_zIndex := inpaintMask_z\<rparr>,
            preview_zIndex := preview_z\<rparr>)"

text \<open>
  The z-indices of the scene after an arrangement, bottom category first: the
  background, the initial image, the adapters of the layers, of the control
  adapters and of the regions of the snapshot, each in snapshot order, the
  inpaint mask and the preview.
\<close>

definition zs_of :: "CanvasEntityState list \<Rightarrow> (string \<times> Adapter) list \<Rightarrow> nat list" where
  "zs_of entities al = map adapter_zIndex (List.map_filter (\<lambda>e. map_of al (state_id e)) entities)"

definition z_sequence :: "CanvasV2State \<Rightarrow> CanvasManager \<Rightarrow> nat list" where
  "z_sequence s m =
     [background_zIndex m, initialImage_zIndex m]
     @ zs_of (st_layers_entities s) (layers m)
     @ zs_of (st_controlAdapters_entities s) (controlAdapters m)
     @ zs_of (st_regions_entities s) (regions m)
     @ [adapter_zIndex (inpaintMask m), preview_zIndex m]"

subsection \<open>The render cycle\<close>

text \<open>
  \<^verbatim>\<open>render\<close> is a fast path followed by a row of guarded blocks. Each block is one
  definition below, guard included; \<^verbatim>\<open>this._prevState\<close> and
  \<^verbatim>\<open>this._isFirstRender\<close> are written only at the end of the method. The block
  whose body is commented out in the source (the entity bounding boxes) does nothing.
\<close>

definition render_layers :: "CanvasV2State \<Rightarrow> CanvasManager \<Rightarrow> CanvasManager" where
  "render_layers s m =
     (if isFirstRender m
         \<or> st_layers_entities_ref s \<noteq> st_layers_entities_ref (prevState m)
      then renderLayers s (emit [Log ''Rendering layers''] m)
      else m)"

definition render_initialImage :: "CanvasV2State \<Rightarrow> CanvasManager \<Rightarrow> CanvasManager" where
  "render_initialImage s m =
     (if isFirstRender m
         \<or> st_initialImage_ref s \<noteq> st_initialImage_ref (prevState m)
         \<or> st_bbox_rect_ref s \<noteq> st_bbox_rect_ref (prevState m)
         \<or> tool_selected (st_tool s) \<noteq> tool_selected (st_tool (prevState m))
         \<or> selected_id s \<noteq> selected_id (prevState m)
      then emit [Log ''Rendering initial image'', RenderInitialImage] m
      else m)"

definition render_regions :: "CanvasV2State \<Rightarrow> CanvasManager \<Rightarrow> CanvasManager" where
  "render_regions s m =
     (if isFirstRender m
         \<or> st_regions_entities_ref s \<noteq> st_regions_entities_ref (prevState m)
         \<or> st_settings_maskOpacity s \<noteq> st_settings_maskOpacity (prevState m)
         \<or> tool_selected (st_tool s) \<noteq> tool_selected (st_tool (prevState m))
         \<or> selected_id s \<noteq> selected_id (prevState m)
      then renderRegions s (emit [Log ''Rendering regions''] m)
      else m)"

definition render_inpaintMask :: "CanvasV2State \<Rightarrow> CanvasManager \<Rightarrow> CanvasManager" where
  "render_inpaintMask s m =
     (if isFirstRender m
         \<or> st_inpaintMask_ref s \<noteq> st_inpaintMask_ref (prevState m)
         \<or> st_settings_maskOpacity s \<noteq> st_settings_maskOpacity (prevState m)
         \<or> tool_selected (st_tool s) \<noteq> tool_selected (st_tool (prevState m))
         \<or> selected_id s \<noteq> selected_id (prevState m)
      then emit [Log ''Rendering inpaint mask'',
                 Update (adapter_inst (inpaintMask m)) (st_inpaintMask s) (st_tool s)
                   (selected_id s = Some (state_id (st_inpaintMask s)))]
             (m\<lparr>inpaintMask := (inpaintMask m)\<lparr>adapter_state := st_inpaintMask s\<rparr>\<rparr>)
      else m)"

definition render_controlAdapters :: "CanvasV2State \<Rightarrow> CanvasManager \<Rightarrow> CanvasManager" where
  "render_controlAdapters s m =
     (if isFirstRender m
         \<or> st_controlAdapters_entities_ref s \<noteq> st_controlAdapters_entities_ref (prevState m)
         \<or> tool_selected (st_tool s) \<noteq> tool_selected (st_tool (prevState m))
         \<or> selected_id s \<noteq> selected_id (prevState m)
      then renderControlAdapters s (emit [Log ''Rendering control adapters''] m)
      else m)"

definition render_publish :: "CanvasV2State \<Rightarrow> CanvasManager \<Rightarrow> CanvasManager" where
  "render_publish s m =
     emit [Publish_toolState (st_tool s),
           Publish_selectedEntityIdentifier (st_selectedEntityIdentifier s),
           Publish_selectedEntity (getSelectedEntity s m),
           Publish_currentFill (getCurrentFill s m)] m"

definition render_bbox :: "CanvasV2State \<Rightarrow> CanvasManager \<Rightarrow> CanvasManager" where
  "render_bbox s m =
     (if isFirstRender m
         \<or> st_bbox_ref s \<noteq> st_bbox_ref (prevState m)
         \<or> tool_selected (st_tool s) \<noteq> tool_selected (st_tool (prevState m))
         \<or> st_session_isActive s \<noteq> st_session_isActive (prevState m)
      then emit [Log ''Rendering generation bbox'', RenderBbox] m
      else m)"

definition render_stagingArea :: "CanvasV2State \<Rightarrow> CanvasManager \<Rightarrow> CanvasManager" where
  "render_stagingArea s m =
     (if isFirstRender m \<or> st_session_ref s \<noteq> st_session_ref (prevState m)
      then emit [Log ''Rendering staging area'', RenderStagingArea] m
      else m)"

definition render_arrange :: "CanvasV2State \<Rightarrow> CanvasManager \<Rightarrow> CanvasManager" where
  "render_arrange s m =
     (if isFirstRender m
         \<or> st_layers_entities_ref s \<noteq> st_layers_entities_ref (prevState m)
         \<or> st_controlAdapters_entities_ref s \<noteq> st_controlAdapters_entities_ref (prevState m)
         \<or> st_regions_entities_ref s \<noteq> st_regions_entities_ref (prevState m)
         \<or> st_inpaintMask_ref s \<noteq> st_inpaintMask_ref (prevState m)
         \<or> selected_id s \<noteq> selected_id (prevState m)
      then arrangeEntities s (emit [Log ''Arranging entities''] m)
      else m)"

definition render :: "CanvasV2State \<Rightarrow> CanvasManager \<Rightarrow> CanvasManager" where
  "render s m =
     (if st_ref (prevState m) = st_ref s \<and> \<not> isFirstRender m
      then emit [Log ''No changes detected, skipping render''] m
      else
        (let m1 = render_layers s m;
             m2 = render_initialImage s m1;
             m3 = render_regions s m2;
             m4 = render_inpaintMask s m3;
             m5 = render_controlAdapters s m4;
             m6 = render_publish s m5;
             m7 = render_bbox s m6;
             m8 = render_stagingArea s m7;
             m9 = render_arrange s m8
         in m9\<lparr>prevState := s, isFirstRender := False\<rparr>))"

text \<open>
  The constructor, for the fields of the model: the three collections are empty,
  the previous snapshot is the state of the store at construction, the first-render
  flag is set, no task is pending, the transform target is \<^verbatim>\<open>null\<close>, and the
  adapter of the inpaint mask is the first object made.
\<close>

definition CanvasManager_new :: "CanvasV2State \<Rightarrow> CanvasManager" where
  "CanvasManager_new s0 =
     \<lparr>layers = [], controlAdapters = [], regions = [],
      inpaintMask = new_adapter inpaint_mask (st_inpaintMask s0) 0,
      background_zIndex = 0, initialImage_zIndex = 0, preview_zIndex = 0,
      transformingEntity = None,
      prevState = s0, isFirstRender = True,
      tasks = [], next_inst = 1, effects = []\<rparr>"

subsection \<open>Passes that overlap\<close>

text \<open>
  \<^verbatim>\<open>render\<close> is an \<^verbatim>\<open>async\<close> method, and nothing awaits it: the store's listener
  (\<^verbatim>\<open>this._store.subscribe(this.render)\<close>) and \<^verbatim>\<open>initialize\<close> call it and go
  on. A pass runs until its next \<^verbatim>\<open>await\<close>, and another pass may start or resume
  before it continues; \<^verbatim>\<open>this._prevState\<close> is written only when a pass ends.
  The function \<open>render\<close> above is a pass during which no other pass runs.

  The definitions below let a pass be suspended at one \<^verbatim>\<open>await\<close>: that of
  \<^verbatim>\<open>adapter.update\<close> in the loop over \<^verbatim>\<open>state.layers.entities\<close>. Every other
  \<^verbatim>\<open>await\<close> is taken to end with no other pass running in between. So each run
  of this model is a run of the program, and the program has runs that the model
  has not.

  A suspended pass (\<open>Pass\<close>) is the snapshot it read when it started
  (\<^verbatim>\<open>const state = this.stateApi.getState()\<close>) and the entities that its loop has
  still to visit. The store, the manager and the suspended passes are a \<open>System\<close>.
\<close>

record Pass =
  pass_state :: CanvasV2State
  pass_rest :: "CanvasEntityState list"

record System =
  store :: CanvasV2State
  manager :: CanvasManager
  pending :: "Pass list"

text \<open>
  The blocks of \<^verbatim>\<open>render\<close> that call \<^verbatim>\<open>this.stateApi\<close> again
  (\<^verbatim>\<open>renderRegions\<close>, \<^verbatim>\<open>renderControlAdapters\<close>, \<^verbatim>\<open>getSelectedEntity\<close>,
  \<^verbatim>\<open>getCurrentFill\<close>, \<^verbatim>\<open>arrangeEntities\<close>), with the state of the store at that
  moment (\<open>st\<close>) apart from the snapshot \<open>s\<close> that the pass read at its start and
  compares with \<^verbatim>\<open>this._prevState\<close> in its guards.
\<close>

definition render_regions_at :: "CanvasV2State \<Rightarrow> CanvasV2State \<Rightarrow> CanvasManager \<Rightarrow> CanvasManager" where
  "render_regions_at st s m =
     (if isFirstRender m
         \<or> st_regions_entities_ref s \<noteq> st_regions_entities_ref (prevState m)
         \<or> st_settings_maskOpacity s \<noteq> st_settings_maskOpacity (prevState m)
         \<or> tool_selected (st_tool s) \<noteq> tool_selected (st_tool (prevState m))
         \<or> selected_id s \<noteq> selected_id (prevState m)
      then renderRegions st (emit [Log ''Rendering regions''] m)
      else m)"

definition render_controlAdapters_at ::
  "CanvasV2State \<Rightarrow> CanvasV2State \<Rightarrow> CanvasManager \<Rightarrow> CanvasManager" where
  "render_controlAdapters_at st s m =
     (if isFirstRender m
         \<or> st_controlAdapters_entities_ref s \<noteq> st_controlAdapters_entities_ref (prevState m)
         \<or> tool_selected (st_tool s) \<noteq> tool_selected (st_tool (prevState m))
         \<or> selected_id s \<noteq> selected_id (prevState m)
      then renderControlAdapters st (emit [Log ''Rendering control adapters''] m)
      else m)"

definition render_publish_at :: "CanvasV2State \<Rightarrow> CanvasV2State \<Rightarrow> CanvasManager \<Rightarrow> CanvasManager" where
  "render_publish_at st s m =
     emit [Publish_toolState (st_tool s),
           Publish_selectedEntityIdentifier (st_selectedEntityIdentifier s),
           Publish_selectedEntity (getSelectedEntity st m),
           Publish_currentFill (getCurrentFill st m)] m"

definition render_arrange_at :: "CanvasV2State \<Rightarrow> CanvasV2State \<Rightarrow> CanvasManager \<Rightarrow> CanvasManager" where
  "render_arrange_at st s m =
     (if isFirstRender m
         \<or> st_layers_entities_ref s \<noteq> st_layers_entities_ref (prevState m)
         \<or> st_controlAdapters_entities_ref s \<noteq> st_controlAdapters_entities_ref (prevState m)
         \<or> st_regions_entities_ref s \<noteq> st_regions_entities_ref (prevState m)
         \<or> st_inpaintMask_ref s \<noteq> st_inpaintMask_ref (prevState m)
         \<or> selected_id s \<noteq> selected_id (prevState m)
      then arrangeEntities st (emit [Log ''Arranging entities''] m)
      else m)"

text \<open>\<open>finish\<close>: \<^verbatim>\<open>render\<close> from the end of the layers block to its last line.\<close>

definition finish :: "CanvasV2State \<Rightarrow> CanvasV2State \<Rightarrow> CanvasManager \<Rightarrow> CanvasManager" where
  "finish st s m =
     (let m2 = render_initialImage s m;
          m3 = render_regions_at st s m2;
          m4 = render_inpaintMask s m3;
          m5 = render_controlAdapters_at st s m4;
          m6 = render_publish_at st s m5;
          m7 = render_bbox s m6;
          m8 = render_stagingArea s m7;
          m9 = render_arrange_at st s m8
      in m9\<lparr>prevState := s, isFirstRender := False\<rparr>)"

text \<open>
  \<open>layers_loop s entities\<close> is the second loop of the layers block over the
  given entities; one turn of it is \<open>layers_loop s [e]\<close>.
\<close>

definition layers_loop :: "CanvasV2State \<Rightarrow> CanvasEntityState list \<Rightarrow> CanvasManager \<Rightarrow> CanvasManager" where
  "layers_loop s entities m =
     (let (al, n, effs) =
        create_loop layer (\<lambda>e i. Update i e (st_tool s) (selected_id s = Some (state_id e)))
          entities (layers m, next_inst m, [])
      in emit effs (m\<lparr>layers := al, next_inst := n\<rparr>))"

text \<open>
  \<open>proceed\<close>: the pass goes on in its loop. With an entity left it makes or finds
  the adapter, calls \<^verbatim>\<open>adapter.update\<close> and is suspended at the \<^verbatim>\<open>await\<close>; with
  no entity left it leaves the loop and runs to the end of \<^verbatim>\<open>render\<close>.
\<close>

definition proceed :: "CanvasV2State \<Rightarrow> Pass \<Rightarrow> CanvasManager \<Rightarrow> CanvasManager \<times> Pass option" where
  "proceed st p m =
     (case pass_rest p of
        [] \<Rightarrow> (finish st (pass_state p) m, None)
      | e # rest \<Rightarrow> (layers_loop (pass_state p) [e] m, Some (p\<lparr>pass_rest := rest\<rparr>)))"

text \<open>
  \<open>start\<close>: \<^verbatim>\<open>render()\<close> is called while the state of the store is \<open>st\<close>. The
  pass reads the snapshot, takes the fast path or goes through the guard of the
  layers block and its first loop, and proceeds.
\<close>

definition start :: "CanvasV2State \<Rightarrow> CanvasManager \<Rightarrow> CanvasManager \<times> Pass option" where
  "start st m =
     (if st_ref (prevState m) = st_ref st \<and> \<not> isFirstRender m
      then (emit [Log ''No changes detected, skipping render''] m, None)
      else if isFirstRender m
              \<or> st_layers_entities_ref st \<noteq> st_layers_entities_ref (prevState m)
      then
        (let m1 = emit [Log ''Rendering layers''] m;
             (al, effs) = destroy_loop layer (st_layers_entities st) (layers m1) (layers m1, [])
         in proceed st \<lparr>pass_state = st, pass_rest = st_layers_entities st\<rparr>
              (emit effs (m1\<lparr>layers := al\<rparr>)))
      else (finish st st m, None))"

text \<open>
  What happens to the system: the store changes to a snapshot and notifies its
  listener (\<open>Dispatch\<close>), \<^verbatim>\<open>render()\<close> is called without a change of the store
  (\<open>Call\<close>), or the \<^verbatim>\<open>await\<close> of a suspended pass ends (\<open>Resume\<close>, with the
  position of the pass among the suspended ones; without such a pass nothing
  happens).
\<close>

datatype SystemEvent = Dispatch CanvasV2State | Call | Resume nat

definition launch :: "CanvasV2State \<Rightarrow> System \<Rightarrow> System" where
  "launch st sys =
     (let (m, p) = start st (manager sys)
      in \<lparr>store = st, manager = m,
          pending = pending sys @ (case p of None \<Rightarrow> [] | Some q \<Rightarrow> [q])\<rparr>)"

fun step :: "System \<Rightarrow> SystemEvent \<Rightarrow> System" where
  "step sys (Dispatch st) = launch st sys"
| "step sys Call = launch (store sys) sys"
| "step sys (Resume i) =
     (if i < length (pending sys)
      then
        (let (m, p) = proceed (store sys) (pending sys ! i) (manager sys)
         in sys\<lparr>manager := m,
                pending := (case p of
                              None \<Rightarrow> take i (pending sys) @ drop (Suc i) (pending sys)
                            | Some q \<Rightarrow> (pending sys)[i := q])\<rparr>)
      else sys)"

definition run :: "System \<Rightarrow> SystemEvent list \<Rightarrow> System" where
  "run sys events = foldl step sys events"

text \<open>The system when the constructor has returned: no pass has started.\<close>

definition boot :: "CanvasV2State \<Rightarrow> System" where
  "boot s0 = \<lparr>store = s0, manager = CanvasManager_new s0, pending = []\<rparr>"

text \<open>
  \<open>alone s\<close>: the store emits \<open>s\<close>, and the pass that this starts is resumed
  until it has ended before anything else happens. \<open>in_turn ss\<close>: the store emits
  the snapshots \<open>ss\<close> and each pass ends before the next snapshot arrives.
\<close>

definition alone :: "CanvasV2State \<Rightarrow> SystemEvent list" where
  "alone s = Dispatch s # replicate (length (st_layers_entities s)) (Resume 0)"

definition in_turn :: "CanvasV2State list \<Rightarrow> SystemEvent list" where
  "in_turn ss = concat (map alone ss)"

text \<open>
  Snapshots are immutable objects: two snapshots that hold the same reference in
  a field hold the same object there. \<open>same_heap\<close> says so of two
  snapshots, for the snapshot itself and for the entity lists that are compared
  by reference; \<open>same_heap_seq\<close> says it of each snapshot of a sequence and
  its successor.
\<close>

definition same_heap :: "CanvasV2State \<Rightarrow> CanvasV2State \<Rightarrow> bool" where
  "same_heap s s' =
     ((st_ref s = st_ref s' \<longrightarrow> s = s')
      \<and> (st_layers_entities_ref s = st_layers_entities_ref s'
         \<longrightarrow> st_layers_entities s = st_layers_entities s')
      \<and> (st_controlAdapters_entities_ref s = st_controlAdapters_entities_ref s'
         \<longrightarrow> st_controlAdapters_entities s = st_controlAdapters_entities s')
      \<and> (st_regions_entities_ref s = st_regions_entities_ref s'
         \<longrightarrow> st_regions_entities s = st_regions_entities s'))"

fun same_heap_seq :: "CanvasV2State list \<Rightarrow> bool" where
  "same_heap_seq (s # s' # ss) = (same_heap s s' \<and> same_heap_seq (s' # ss))"
| "same_heap_seq ss = True"

text \<open>
  The ids of a list of entity states and the keys of a collection. A collection
  is \<open>keyed\<close> when no key occurs twice in it and every adapter is stored under
  its own id; it \<open>mirrors\<close> a list of entity states when, moreover, its keys are
  exactly the ids of the list.
\<close>

definition ids :: "CanvasEntityState list \<Rightarrow> string list" where
  "ids entities = map state_id entities"

definition keys :: "(string \<times> Adapter) list \<Rightarrow> string list" where
  "keys al = map fst al"

definition keyed :: "(string \<times> Adapter) list \<Rightarrow> bool" where
  "keyed al = (distinct (keys al) \<and> (\<forall>(k, a) \<in> set al. adapter_id a = k))"

definition mirrors :: "CanvasEntityState list \<Rightarrow> (string \<times> Adapter) list \<Rightarrow> bool" where
  "mirrors entities al = (keyed al \<and> set (keys al) = set (ids entities))"

text \<open>
  The invariant of the render cycle: the three collections are keyed, and once a
  snapshot has been rendered they mirror the entity lists of the snapshot
  rendered last.
\<close>

definition reconciled :: "CanvasManager \<Rightarrow> bool" where
  "reconciled m =
     (keyed (layers m) \<and> keyed (controlAdapters m) \<and> keyed (regions m)
      \<and> (\<not> isFirstRender m \<longrightarrow>
            mirrors (st_layers_entities (prevState m)) (layers m)
          \<and> mirrors (st_controlAdapters_entities (prevState m)) (controlAdapters m)
          \<and> mirrors (st_regions_entities (prevState m)) (regions m)))"

text \<open>
  \<open>absent_only s new\<close>: every \<^verbatim>\<open>destroy\<close> among the effects \<open>new\<close> is that
  of an adapter whose id the corresponding entity list of \<open>s\<close> does not hold.
\<close>

definition absent_only :: "CanvasV2State \<Rightarrow> Effect list \<Rightarrow> bool" where
  "absent_only s new =
     (\<forall>k i. (Destroy layer k i \<in> set new \<longrightarrow> k \<notin> set (ids (st_layers_entities s)))
          \<and> (Destroy control_adapter k i \<in> set new
               \<longrightarrow> k \<notin> set (ids (st_controlAdapters_entities s)))
          \<and> (Destroy regional_guidance k i \<in> set new
               \<longrightarrow> k \<notin> set (ids (st_regions_entities s)))
          \<and> Destroy inpaint_mask k i \<notin> set new)"

text \<open>
  \<open>destroys_absent s m m'\<close>: the effects of \<open>m'\<close> are those of \<open>m\<close> followed
  by effects among which only adapters absent from \<open>s\<close> are destroyed.
\<close>

definition destroys_absent :: "CanvasV2State \<Rightarrow> CanvasManager \<Rightarrow> CanvasManager \<Rightarrow> bool" where
  "destroys_absent s m m' = (\<exists>new. effects m' = effects m @ new \<and> absent_only s new)"

subsection \<open>Example data\<close>

text \<open>Concrete snapshots and managers, for the instances of the theorems below.\<close>

definition fill_tool :: RgbaColor where
  "fill_tool = \<lparr>rgba_r = 10, rgba_g = 20, rgba_b = 30, rgba_a = 255\<rparr>"

definition fill_entity :: RgbaColor where
  "fill_entity = \<lparr>rgba_r = 200, rgba_g = 100, rgba_b = 50, rgba_a = 1\<rparr>"

definition entity :: "string \<Rightarrow> EntityType \<Rightarrow> nat \<Rightarrow> CanvasEntityState" where
  "entity i t n = \<lparr>state_id = i, state_type = t, state_fill = fill_entity, state_rest = n\<rparr>"

text \<open>
  \<open>snapshot r ls cas rgs sel\<close>: a snapshot all of whose objects are new
  (reference \<open>r\<close>), with the given layers, control adapters, regions and selection.
\<close>

definition snapshot ::
  "nat \<Rightarrow> CanvasEntityState list \<Rightarrow> CanvasEntityState list \<Rightarrow> CanvasEntityState list \<Rightarrow>
   CanvasEntityIdentifier option \<Rightarrow> CanvasV2State" where
  "snapshot r ls cas rgs sel =
     \<lparr>st_ref = r,
      st_layers_entities_ref = r, st_layers_entities = ls,
      st_controlAdapters_entities_ref = r, st_controlAdapters_entities = cas,
      st_regions_entities_ref = r, st_regions_entities = rgs,
      st_inpaintMask_ref = r, st_inpaintMask = entity ''M'' inpaint_mask 0,
      st_initialImage_ref = r, st_bbox_ref = r, st_bbox_rect_ref = r,
      st_session_ref = r, st_session_isActive = False,
      st_tool = \<lparr>tool_selected = ''brush'', tool_fill = fill_tool\<rparr>,
      st_settings_maskOpacity = 0.3,
      st_selectedEntityIdentifier = sel\<rparr>"

definition scene :: "CanvasEntityIdentifier option \<Rightarrow> CanvasV2State" where
  "scene sel =
     snapshot 1 [entity ''L1'' layer 0, entity ''L2'' layer 0]
       [entity ''C1'' control_adapter 0] [entity ''R1'' regional_guidance 0] sel"

text \<open>The manager after the first \<^verbatim>\<open>render\<close> of \<open>scene sel\<close>, written out.\<close>

definition scene_manager :: "CanvasEntityIdentifier option \<Rightarrow> CanvasManager" where
  "scene_manager sel =
     \<lparr>layers = [(''L1'', (new_adapter layer (entity ''L1'' layer 0) 1)\<lparr>adapter_zIndex := 3\<rparr>),
                (''L2'', (new_adapter layer (entity ''L2'' layer 0) 2)\<lparr>adapter_zIndex := 4\<rparr>)],
      controlAdapters =
               [(''C1'', (new_adapter control_adapter (entity ''C1'' control_adapter 0) 4)
                           \<lparr>adapter_zIndex := 5\<rparr>)],
      regions = [(''R1'', (new_adapter regional_guidance (entity ''R1'' regional_guidance 0) 3)
                           \<lparr>adapter_zIndex := 6\<rparr>)],
      inpaintMask = (new_adapter inpaint_mask (entity ''M'' inpaint_mask 0) 0)\<lparr>adapter_zIndex := 7\<rparr>,
      background_zIndex = 1, initialImage_zIndex = 2, preview_zIndex = 8,
      transformingEntity = None,
      prevState = scene sel, isFirstRender = False,
      tasks = [], next_inst = 5, effects = []\<rparr>"

definition sel_L1 :: "CanvasEntityIdentifier option" where
  "sel_L1 = Some \<lparr>ident_id = ''L1'', ident_type = layer\<rparr>"

definition sel_C1 :: "CanvasEntityIdentifier option" where
  "sel_C1 = Some \<lparr>ident_id = ''C1'', ident_type = control_adapter\<rparr>"

definition sel_R1 :: "CanvasEntityIdentifier option" where
  "sel_R1 = Some \<lparr>ident_id = ''R1'', ident_type = regional_guidance\<rparr>"

definition sel_M :: "CanvasEntityIdentifier option" where
  "sel_M = Some \<lparr>ident_id = ''M'', ident_type = inpaint_mask\<rparr>"

text \<open>
  A snapshot whose layer \<^verbatim>\<open>L1\<close> carries the type tag of a region, next to the
  manager of \<open>scene\<close>, whose adapter for \<^verbatim>\<open>L1\<close> is a layer adapter.
\<close>

definition scene_mismatch :: CanvasV2State where
  "scene_mismatch = snapshot 2 [entity ''L1'' regional_guidance 0] [] [] sel_L1"

text \<open>The example scene after the store has swapped its two layers.\<close>

definition scene_swapped :: CanvasV2State where
  "scene_swapped =
     snapshot 2 [entity ''L2'' layer 0, entity ''L1'' layer 0]
       [entity ''C1'' control_adapter 0] [entity ''R1'' regional_guidance 0] None"


text \<open>
  The example scene after the store has removed the layer \<^verbatim>\<open>L2\<close>: the other
  objects of the snapshot are those of \<open>scene None\<close>.
\<close>

definition scene_one :: CanvasV2State where
  "scene_one =
     (scene None)
       \<lparr>st_ref := 2,
        st_layers_entities_ref := 2,
        st_layers_entities := [entity ''L1'' layer 0]\<rparr>"

text \<open>
  Two passes that overlap. The store emits \<open>scene None\<close> and the first pass is
  suspended at the update of \<^verbatim>\<open>L1\<close>; the store emits \<open>scene_one\<close> and the
  second pass is suspended at the update of \<^verbatim>\<open>L1\<close>; the first pass goes on to
  \<^verbatim>\<open>L2\<close>; the second pass runs to its end; the first pass runs to its end.
\<close>

definition overlapped :: System where
  "overlapped =
     run (boot (scene None))
       [Dispatch (scene None), Dispatch scene_one, Resume 0, Resume 1, Resume 0]"

text \<open>The calls of adapter constructors and of adapter methods among some effects.\<close>

definition adapter_calls :: "Effect list \<Rightarrow> Effect list" where
  "adapter_calls effs =
     filter (\<lambda>x. case x of New kind k i \<Rightarrow> True | Update i e t b \<Rightarrow> True | Render i e \<Rightarrow> True
                  | Destroy kind k i \<Rightarrow> True | _ \<Rightarrow> False) effs"

section \<open>Properties\<close>

lemmas scene_defs = scene_def snapshot_def scene_manager_def entity_def new_adapter_def
  sel_L1_def sel_C1_def sel_R1_def sel_M_def scene_mismatch_def

lemmas getEntity_defs = getSelectedEntity_def getEntity_def entityState_def entityAdapter_def

subsection \<open>The selection in the example scene\<close>

lemma getSelectedEntity_scene_R1:
  "getSelectedEntity (scene sel_R1) (scene_manager sel_R1) =
     Some \<lparr>esa_state = entity ''R1'' regional_guidance 0,
           esa_adapter = (new_adapter regional_guidance (entity ''R1'' regional_guidance 0) 3)
                           \<lparr>adapter_zIndex := 6\<rparr>\<rparr>"
  by (simp add: getEntity_defs scene_defs)

lemma getSelectedEntity_scene_L1:
  "getSelectedEntity (scene sel_L1) (scene_manager sel_L1) =
     Some \<lparr>esa_state = entity ''L1'' layer 0,
           esa_adapter = (new_adapter layer (entity ''L1'' layer 0) 1)\<lparr>adapter_zIndex := 3\<rparr>\<rparr>"
  by (simp add: getEntity_defs scene_defs)

lemma getSelectedEntity_scene_M:
  "getSelectedEntity (scene sel_M) (scene_manager sel_M) =
     Some \<lparr>esa_state = entity ''M'' inpaint_mask 0,
           esa_adapter = (new_adapter inpaint_mask (entity ''M'' inpaint_mask 0) 0)
                           \<lparr>adapter_zIndex := 7\<rparr>\<rparr>"
  by (simp add: getEntity_defs scene_defs)

lemma getSelectedEntity_scene_C1:
  "getSelectedEntity (scene sel_C1) (scene_manager sel_C1) =
     Some \<lparr>esa_state = entity ''C1'' control_adapter 0,
           esa_adapter = (new_adapter control_adapter (entity ''C1'' control_adapter 0) 4)
                           \<lparr>adapter_zIndex := 5\<rparr>\<rparr>"
  by (simp add: getEntity_defs scene_defs)

lemma getSelectedEntity_scene_None:
  "getSelectedEntity (scene None) (scene_manager None) = None"
  by (simp add: getSelectedEntity_def scene_defs)

subsection \<open>Fill colours\<close>

text \<open>
  Claim C7. \<^verbatim>\<open>getCurrentFill\<close> returns the fill of the tool when nothing is
  selected or the selection does not resolve, and when the selected entity is a
  layer or a control adapter; it returns \<^verbatim>\<open>RGBA_WHITE\<close>, whatever the fill of the
  tool, when the selected entity resolves to a region or to the inpaint mask.
\<close>

theorem getCurrentFill_rule:
  "(getSelectedEntity s m = None \<longrightarrow> getCurrentFill s m = tool_fill (st_tool s))
   \<and> (\<forall>e. getSelectedEntity s m = Some e \<longrightarrow>
        (state_type (esa_state e) = regional_guidance \<or> state_type (esa_state e) = inpaint_mask
           \<longrightarrow> getCurrentFill s m = RGBA_WHITE)
        \<and> (state_type (esa_state e) = layer \<or> state_type (esa_state e) = control_adapter
           \<longrightarrow> getCurrentFill s m = tool_fill (st_tool s)))"
  by (auto simp: getCurrentFill_def)

text \<open>
  In the example scene the tool's fill is \<^verbatim>\<open>{r: 10, g: 20, b: 30, a: 255}\<close>:
  white for the region and for the mask, the tool's fill for a layer, for a control
  adapter and without a selection.
\<close>

theorem getCurrentFill_rule_witness:
  "tool_fill (st_tool (scene sel_R1)) = fill_tool
   \<and> getCurrentFill (scene sel_R1) (scene_manager sel_R1) = RGBA_WHITE
   \<and> getCurrentFill (scene sel_M) (scene_manager sel_M) = RGBA_WHITE
   \<and> getCurrentFill (scene sel_L1) (scene_manager sel_L1) = fill_tool
   \<and> getCurrentFill (scene sel_C1) (scene_manager sel_C1) = fill_tool
   \<and> getCurrentFill (scene None) (scene_manager None) = fill_tool
   \<and> fill_tool \<noteq> RGBA_WHITE"
  using getCurrentFill_rule [of "scene sel_R1" "scene_manager sel_R1"]
        getCurrentFill_rule [of "scene sel_M" "scene_manager sel_M"]
        getCurrentFill_rule [of "scene sel_L1" "scene_manager sel_L1"]
        getCurrentFill_rule [of "scene sel_C1" "scene_manager sel_C1"]
        getCurrentFill_rule [of "scene None" "scene_manager None"]
  by (simp add: getSelectedEntity_scene_R1 getSelectedEntity_scene_L1 getSelectedEntity_scene_M
      getSelectedEntity_scene_C1 getSelectedEntity_scene_None)
     (simp add: scene_def snapshot_def entity_def fill_tool_def RGBA_WHITE_def)

text \<open>
  Claim C9, as stated, fails: with the region \<^verbatim>\<open>R1\<close> selected, whose own fill is
  \<^verbatim>\<open>{r: 200, g: 100, b: 50, a: 1}\<close>, and a mask opacity of 0.3, the brush preview
  is \<^verbatim>\<open>{r: 200, g: 100, b: 50, a: 0.3}\<close>: the colour of the entity, not the white
  that \<^verbatim>\<open>getCurrentFill\<close> returns for the same selection.
\<close>

theorem getBrushPreviewFill_white_counterexample:
  "getSelectedEntity (scene sel_R1) (scene_manager sel_R1) =
     Some \<lparr>esa_state = entity ''R1'' regional_guidance 0,
           esa_adapter = (new_adapter regional_guidance (entity ''R1'' regional_guidance 0) 3)
                           \<lparr>adapter_zIndex := 6\<rparr>\<rparr>
   \<and> getCurrentFill (scene sel_R1) (scene_manager sel_R1) = RGBA_WHITE
   \<and> getBrushPreviewFill (scene sel_R1) (scene_manager sel_R1)
       = \<lparr>rgba_r = 200, rgba_g = 100, rgba_b = 50, rgba_a = 0.3\<rparr>
   \<and> getBrushPreviewFill (scene sel_R1) (scene_manager sel_R1)
       \<noteq> (getCurrentFill (scene sel_R1) (scene_manager sel_R1))
            \<lparr>rgba_a := st_settings_maskOpacity (scene sel_R1)\<rparr>"
  by (simp add: getBrushPreviewFill_def getCurrentFill_def getSelectedEntity_scene_R1)
     (simp add: scene_def snapshot_def entity_def fill_entity_def RGBA_WHITE_def)

text \<open>
  Claim C9, amended. When the selected entity resolves to a region or to the
  inpaint mask, \<^verbatim>\<open>getBrushPreviewFill\<close> returns the fill of that entity's state
  with the alpha channel replaced by the mask opacity of the settings; for any
  other selection, and without one, it returns the fill of the tool.
\<close>

theorem getBrushPreviewFill_rule:
  "(getSelectedEntity s m = None \<longrightarrow> getBrushPreviewFill s m = tool_fill (st_tool s))
   \<and> (\<forall>e. getSelectedEntity s m = Some e \<longrightarrow>
        (state_type (esa_state e) = regional_guidance \<or> state_type (esa_state e) = inpaint_mask
           \<longrightarrow> getBrushPreviewFill s m
                 = \<lparr>rgba_r = rgba_r (state_fill (esa_state e)),
                    rgba_g = rgba_g (state_fill (esa_state e)),
                    rgba_b = rgba_b (state_fill (esa_state e)),
                    rgba_a = st_settings_maskOpacity s\<rparr>)
        \<and> (state_type (esa_state e) = layer \<or> state_type (esa_state e) = control_adapter
           \<longrightarrow> getBrushPreviewFill s m = tool_fill (st_tool s)))"
  by (auto simp: getBrushPreviewFill_def)

theorem getBrushPreviewFill_rule_witness:
  "getBrushPreviewFill (scene sel_R1) (scene_manager sel_R1)
     = \<lparr>rgba_r = 200, rgba_g = 100, rgba_b = 50, rgba_a = 0.3\<rparr>
   \<and> getBrushPreviewFill (scene sel_M) (scene_manager sel_M)
     = \<lparr>rgba_r = 200, rgba_g = 100, rgba_b = 50, rgba_a = 0.3\<rparr>
   \<and> getBrushPreviewFill (scene sel_L1) (scene_manager sel_L1) = fill_tool
   \<and> getBrushPreviewFill (scene None) (scene_manager None) = fill_tool"
  using getBrushPreviewFill_rule [of "scene sel_R1" "scene_manager sel_R1"]
        getBrushPreviewFill_rule [of "scene sel_M" "scene_manager sel_M"]
        getBrushPreviewFill_rule [of "scene sel_L1" "scene_manager sel_L1"]
        getBrushPreviewFill_rule [of "scene None" "scene_manager None"]
  by (simp add: getSelectedEntity_scene_R1 getSelectedEntity_scene_L1 getSelectedEntity_scene_M
      getSelectedEntity_scene_None)
     (simp add: scene_def snapshot_def entity_def fill_entity_def)

subsection \<open>Mismatched type tags\<close>

text \<open>
  Claim C5, as stated, fails: in \<open>scene_mismatch\<close> the selected identifier
  \<^verbatim>\<open>{id: 'L1', type: 'layer'}\<close> finds a state tagged \<^verbatim>\<open>regional_guidance\<close> and an
  adapter tagged \<^verbatim>\<open>layer\<close>. \<^verbatim>\<open>getEntity\<close> returns \<^verbatim>\<open>null\<close>, the selection
  counts as absent, \<^verbatim>\<open>getCurrentFill\<close> returns the fill of the tool, and a
  \<^verbatim>\<open>render\<close> of that snapshot runs to its end and publishes \<^verbatim>\<open>null\<close> as the
  selected entity: nothing is raised.
\<close>

theorem getEntity_mismatch_counterexample:
  "entityState scene_mismatch \<lparr>ident_id = ''L1'', ident_type = layer\<rparr>
     = Some (entity ''L1'' regional_guidance 0)
   \<and> entityAdapter (scene_manager sel_L1) \<lparr>ident_id = ''L1'', ident_type = layer\<rparr>
     = Some ((new_adapter layer (entity ''L1'' layer 0) 1)\<lparr>adapter_zIndex := 3\<rparr>)
   \<and> state_type (entity ''L1'' regional_guidance 0)
     \<noteq> adapter_type ((new_adapter layer (entity ''L1'' layer 0) 1)\<lparr>adapter_zIndex := 3\<rparr>)
   \<and> getEntity scene_mismatch \<lparr>ident_id = ''L1'', ident_type = layer\<rparr> (scene_manager sel_L1) = None
   \<and> getSelectedEntity scene_mismatch (scene_manager sel_L1) = None
   \<and> getCurrentFill scene_mismatch (scene_manager sel_L1) = fill_tool
   \<and> filter (\<lambda>x. case x of Publish_selectedEntity v \<Rightarrow> True | _ \<Rightarrow> False)
         (effects (render scene_mismatch (scene_manager sel_L1)))
       = [Publish_selectedEntity None]"
proof -
  have "filter (\<lambda>x. case x of Publish_selectedEntity v \<Rightarrow> True | _ \<Rightarrow> False)
         (effects (render scene_mismatch (scene_manager sel_L1)))
       = [Publish_selectedEntity None]"
    by code_simp
  then show ?thesis
    by (simp add: getCurrentFill_def getEntity_defs scene_defs)
qed

text \<open>
  Claim C5, amended. When the identifier finds an entity state and an adapter
  whose type tags differ, \<^verbatim>\<open>getEntity\<close> returns \<^verbatim>\<open>null\<close>; if that identifier is
  the selected one, \<^verbatim>\<open>getSelectedEntity\<close> returns \<^verbatim>\<open>null\<close> and
  \<^verbatim>\<open>getCurrentFill\<close> the fill of the tool, as without a selection.
\<close>

theorem getEntity_mismatch_null:
  assumes "entityState s identifier = Some st"
    and "entityAdapter m identifier = Some ad"
    and "state_type st \<noteq> adapter_type ad"
  shows "getEntity s identifier m = None
         \<and> (st_selectedEntityIdentifier s = Some identifier
              \<longrightarrow> getSelectedEntity s m = None \<and> getCurrentFill s m = tool_fill (st_tool s))"
  using assms by (simp add: getCurrentFill_def getSelectedEntity_def getEntity_def)

theorem getEntity_mismatch_null_witness:
  "getEntity scene_mismatch \<lparr>ident_id = ''L1'', ident_type = layer\<rparr> (scene_manager None) = None
   \<and> st_selectedEntityIdentifier scene_mismatch = Some \<lparr>ident_id = ''L1'', ident_type = layer\<rparr>
   \<and> getSelectedEntity scene_mismatch (scene_manager None) = None
   \<and> getCurrentFill scene_mismatch (scene_manager None) = tool_fill (st_tool scene_mismatch)"
proof -
  have st: "entityState scene_mismatch \<lparr>ident_id = ''L1'', ident_type = layer\<rparr>
              = Some (entity ''L1'' regional_guidance 0)"
    by (simp add: entityState_def scene_defs)
  have ad: "entityAdapter (scene_manager None) \<lparr>ident_id = ''L1'', ident_type = layer\<rparr>
              = Some ((new_adapter layer (entity ''L1'' layer 0) 1)\<lparr>adapter_zIndex := 3\<rparr>)"
    by (simp add: entityAdapter_def scene_defs)
  have ne: "state_type (entity ''L1'' regional_guidance 0)
              \<noteq> adapter_type ((new_adapter layer (entity ''L1'' layer 0) 1)\<lparr>adapter_zIndex := 3\<rparr>)"
    by (simp add: entity_def new_adapter_def)
  have sel: "st_selectedEntityIdentifier scene_mismatch
               = Some \<lparr>ident_id = ''L1'', ident_type = layer\<rparr>"
    by (simp add: scene_mismatch_def snapshot_def sel_L1_def)
  from getEntity_mismatch_null [OF st ad ne] sel show ?thesis by simp
qed

subsection \<open>The transform target\<close>

lemma publish_eq [simp]: "publish (=) current new = new"
  by (simp add: publish_def)

text \<open>
  Claim C6. The machine is idle when the transform target is \<^verbatim>\<open>null\<close> and
  transforming otherwise. When idle, \<^verbatim>\<open>startTransform\<close> fails the assertion
  \<^verbatim>\<open>'No selected layer'\<close> if the selection does not resolve or resolves to a
  control adapter or a region, and it starts the transformer of the selected layer
  or inpaint mask and publishes its identifier otherwise. When transforming,
  \<^verbatim>\<open>startTransform\<close> changes nothing. When idle, \<^verbatim>\<open>applyTransform\<close> and
  \<^verbatim>\<open>cancelTransform\<close> call no adapter: they only publish \<^verbatim>\<open>null\<close> again. After
  either of them the machine is idle. (Transformer calls are taken to return.)
\<close>

theorem transform_state_machine:
  "(getIsTransforming m \<longleftrightarrow> transformingEntity m \<noteq> None)
   \<and> (\<not> getIsTransforming m \<and> getSelectedEntity s m = None
        \<longrightarrow> startTransform s m = Inl (AssertionError ''No selected layer''))
   \<and> (\<forall>e. \<not> getIsTransforming m \<and> getSelectedEntity s m = Some e
            \<and> (adapter_type (esa_adapter e) = control_adapter
                \<or> adapter_type (esa_adapter e) = regional_guidance)
        \<longrightarrow> startTransform s m = Inl (AssertionError ''No selected layer''))
   \<and> (\<forall>e. \<not> getIsTransforming m \<and> getSelectedEntity s m = Some e
            \<and> (adapter_type (esa_adapter e) = layer \<or> adapter_type (esa_adapter e) = inpaint_mask)
        \<longrightarrow> startTransform s m
              = Inr (m\<lparr>transformingEntity :=
                          Some \<lparr>ident_id = state_id (esa_state e),
                                ident_type = state_type (esa_state e)\<rparr>,
                        effects := effects m @
                          [TransformerStart (adapter_inst (esa_adapter e)),
                           Publish_transformingEntity
                             (Some \<lparr>ident_id = state_id (esa_state e),
                                    ident_type = state_type (esa_state e)\<rparr>)]\<rparr>))
   \<and> (getIsTransforming m \<longrightarrow> startTransform s m = Inr m)
   \<and> (\<not> getIsTransforming m
        \<longrightarrow> applyTransform m = m\<lparr>effects := effects m @ [Publish_transformingEntity None]\<rparr>
          \<and> cancelTransform m = m\<lparr>effects := effects m @ [Publish_transformingEntity None]\<rparr>)
   \<and> \<not> getIsTransforming (applyTransform m)
   \<and> \<not> getIsTransforming (cancelTransform m)"
  by (cases "adapter_type (esa_adapter (the (getSelectedEntity s m)))")
     (auto simp: startTransform_def applyTransform_def cancelTransform_def getIsTransforming_def
         getTransformingLayer_def publish_transformingEntity_def emit_def
         split: option.splits)

text \<open>
  In the example scene, idle: no selection and a selected control adapter fail the
  assertion; the selected layer \<^verbatim>\<open>L1\<close> (instance 1) becomes the target; a second
  \<^verbatim>\<open>startTransform\<close> changes nothing; \<^verbatim>\<open>applyTransform\<close> when idle only
  publishes \<^verbatim>\<open>null\<close>.
\<close>

theorem transform_state_machine_witness:
  "\<not> getIsTransforming (scene_manager None)
   \<and> startTransform (scene None) (scene_manager None) = Inl (AssertionError ''No selected layer'')
   \<and> startTransform (scene sel_C1) (scene_manager sel_C1) = Inl (AssertionError ''No selected layer'')
   \<and> startTransform (scene sel_L1) (scene_manager sel_L1)
       = Inr ((scene_manager sel_L1)
               \<lparr>transformingEntity := Some \<lparr>ident_id = ''L1'', ident_type = layer\<rparr>,
                effects := [TransformerStart 1,
                            Publish_transformingEntity
                              (Some \<lparr>ident_id = ''L1'', ident_type = layer\<rparr>)]\<rparr>)
   \<and> getIsTransforming ((scene_manager sel_L1)\<lparr>transformingEntity := sel_L1\<rparr>)
   \<and> startTransform (scene sel_L1) ((scene_manager sel_L1)\<lparr>transformingEntity := sel_L1\<rparr>)
       = Inr ((scene_manager sel_L1)\<lparr>transformingEntity := sel_L1\<rparr>)
   \<and> applyTransform (scene_manager None)
       = (scene_manager None)\<lparr>effects := [Publish_transformingEntity None]\<rparr>
   \<and> cancelTransform (scene_manager None)
       = (scene_manager None)\<lparr>effects := [Publish_transformingEntity None]\<rparr>
   \<and> \<not> getIsTransforming (applyTransform ((scene_manager sel_L1)\<lparr>transformingEntity := sel_L1\<rparr>))"
proof -
  have idle: "\<not> getIsTransforming (scene_manager sel)" for sel
    by (simp add: getIsTransforming_def scene_manager_def)
  have busy: "getIsTransforming ((scene_manager sel_L1)\<lparr>transformingEntity := sel_L1\<rparr>)"
    by (simp add: getIsTransforming_def sel_L1_def)
  have eff: "effects (scene_manager sel) = []" for sel
    by (simp add: scene_manager_def)
  note none = transform_state_machine [of "scene_manager None" "scene None"]
  note c1 = transform_state_machine [of "scene_manager sel_C1" "scene sel_C1"]
  note l1 = transform_state_machine [of "scene_manager sel_L1" "scene sel_L1"]
  note again = transform_state_machine
                 [of "(scene_manager sel_L1)\<lparr>transformingEntity := sel_L1\<rparr>" "scene sel_L1"]
  show ?thesis
    using none c1 l1 again idle busy
    by (simp add: getSelectedEntity_scene_None getSelectedEntity_scene_C1
          getSelectedEntity_scene_L1 eff)
       (simp add: new_adapter_def entity_def)
qed

text \<open>
  Claim C10. \<^verbatim>\<open>applyTransform\<close> and \<^verbatim>\<open>cancelTransform\<close> always leave the
  transform target \<^verbatim>\<open>null\<close>. When the recorded identifier is a control adapter or
  a region, or a layer for which the collection has no adapter,
  \<^verbatim>\<open>getTransformingLayer\<close> is \<^verbatim>\<open>null\<close> and the two methods call no transformer:
  they publish \<^verbatim>\<open>null\<close>, which clears the target, and do nothing else.
\<close>

theorem transform_always_cleared:
  "transformingEntity (applyTransform m) = None
   \<and> transformingEntity (cancelTransform m) = None
   \<and> (\<forall>te. transformingEntity m = Some te
          \<and> (ident_type te = control_adapter \<or> ident_type te = regional_guidance
              \<or> (ident_type te = layer \<and> map_of (layers m) (ident_id te) = None))
        \<longrightarrow> getTransformingLayer m = None
          \<and> applyTransform m
              = m\<lparr>transformingEntity := None,
                   effects := effects m @ [Publish_transformingEntity None]\<rparr>
          \<and> cancelTransform m
              = m\<lparr>transformingEntity := None,
                   effects := effects m @ [Publish_transformingEntity None]\<rparr>)"
  by (auto simp: applyTransform_def cancelTransform_def
         getTransformingLayer_def publish_transformingEntity_def emit_def
         split: option.splits EntityType.splits)

text \<open>
  The target is the layer \<^verbatim>\<open>L9\<close>, which the collection does not hold, or the
  control adapter \<^verbatim>\<open>C1\<close>.
\<close>

theorem transform_always_cleared_witness:
  "map_of (layers (scene_manager None)) ''L9'' = None
   \<and> applyTransform
       ((scene_manager None)\<lparr>transformingEntity := Some \<lparr>ident_id = ''L9'', ident_type = layer\<rparr>\<rparr>)
     = (scene_manager None)\<lparr>effects := [Publish_transformingEntity None]\<rparr>
   \<and> cancelTransform ((scene_manager None)\<lparr>transformingEntity := sel_C1\<rparr>)
     = (scene_manager None)\<lparr>effects := [Publish_transformingEntity None]\<rparr>"
proof -
  have absent: "map_of (layers (scene_manager None)) ''L9'' = None"
    by (simp add: scene_manager_def)
  have idle: "transformingEntity (scene_manager None) = None"
    and eff: "effects (scene_manager None) = []"
    by (simp_all add: scene_manager_def)
  have same: "(scene_manager None)\<lparr>transformingEntity := None\<rparr> = scene_manager None"
    using idle by simp
  note l9 = transform_always_cleared
    [of "(scene_manager None)\<lparr>transformingEntity := Some \<lparr>ident_id = ''L9'', ident_type = layer\<rparr>\<rparr>"]
  note c1 = transform_always_cleared
    [of "(scene_manager None)\<lparr>transformingEntity := sel_C1\<rparr>"]
  show ?thesis
    using l9 c1 absent by (simp add: sel_C1_def eff same)
qed

subsection \<open>Bounding-box tasks\<close>

lemma task_step_other:
  "\<not> mentions tid ev \<Longrightarrow> map_of (tasks (task_step m ev)) tid = map_of (tasks m) tid"
proof (cases ev)
  case (Request tid' buffer onComplete)
  assume "\<not> mentions tid ev"
  with Request show ?thesis
    by (simp add: requestBbox_def emit_def Let_def update_conv')
next
  case (Message msg)
  assume "\<not> mentions tid ev"
  with Message show ?thesis
    by (cases msg) (auto simp: onmessage_def emit_def split: option.splits)
qed

lemma task_steps_other:
  "\<forall>ev\<in>set evs. \<not> mentions tid ev \<Longrightarrow>
   map_of (tasks (foldl task_step m evs)) tid = map_of (tasks m) tid"
  by (induction evs arbitrary: m) (simp_all add: task_step_other)

lemma tasks_requestBbox:
  "map_of (tasks (requestBbox tid buffer onComplete m)) tid
     = Some (\<lparr>task_type = ''get_bbox'', task_buffer = buffer, task_id = tid\<rparr>, onComplete)"
  by (simp add: requestBbox_def emit_def Let_def update_conv')

lemma onmessage_known:
  "map_of (tasks m) tid = Some (task, onComplete) \<Longrightarrow>
   onmessage (ExtentsResult tid extents) m
     = m\<lparr>tasks := AList.delete tid (tasks m), effects := effects m @ [OnComplete onComplete extents]\<rparr>"
  by (simp add: onmessage_def emit_def)

lemma onmessage_unknown:
  "map_of (tasks m) tid = None \<Longrightarrow> onmessage (ExtentsResult tid extents) m = m"
  by (simp add: onmessage_def)

text \<open>
  Claim C8. After \<^verbatim>\<open>requestBbox\<close> with the generated id \<open>tid\<close> and any run of
  other requests and worker messages that do not carry that id, the answer of the
  worker for \<open>tid\<close> calls the callback of the request once, with the extents (or
  \<^verbatim>\<open>null\<close>) of the answer, and deletes the entry from the table and nothing else;
  a further answer with the same id changes nothing. An answer whose id is not in
  the table changes nothing: no callback is called.
\<close>

theorem task_correlation:
  "((\<forall>ev\<in>set evs. \<not> mentions tid ev) \<longrightarrow>
     (let m1 = foldl task_step (requestBbox tid buffer onComplete m) evs;
          m2 = onmessage (ExtentsResult tid extents) m1
      in m2 = m1\<lparr>tasks := AList.delete tid (tasks m1),
                 effects := effects m1 @ [OnComplete onComplete extents]\<rparr>
         \<and> tid \<notin> fst ` set (tasks m2)
         \<and> onmessage (ExtentsResult tid extents') m2 = m2))
   \<and> (tid \<notin> fst ` set (tasks m) \<longrightarrow> onmessage (ExtentsResult tid extents) m = m)"
proof (intro conjI impI)
  assume other: "\<forall>ev\<in>set evs. \<not> mentions tid ev"
  define m1 where "m1 = foldl task_step (requestBbox tid buffer onComplete m) evs"
  define m2 where "m2 = onmessage (ExtentsResult tid extents) m1"
  have pending: "map_of (tasks m1) tid
      = Some (\<lparr>task_type = ''get_bbox'', task_buffer = buffer, task_id = tid\<rparr>, onComplete)"
    unfolding m1_def using task_steps_other [OF other] tasks_requestBbox by simp
  have m2: "m2 = m1\<lparr>tasks := AList.delete tid (tasks m1),
               effects := effects m1 @ [OnComplete onComplete extents]\<rparr>"
    unfolding m2_def by (rule onmessage_known [OF pending])
  have notin: "tid \<notin> fst ` set (tasks m2)"
    using delete_notin_dom [of tid "tasks m1"] by (simp add: m2)
  then have "map_of (tasks m2) tid = None"
    by (simp add: map_of_eq_None_iff)
  then have again: "onmessage (ExtentsResult tid extents') m2 = m2"
    by (rule onmessage_unknown)
  show "let m1 = foldl task_step (requestBbox tid buffer onComplete m) evs;
            m2 = onmessage (ExtentsResult tid extents) m1
        in m2 = m1\<lparr>tasks := AList.delete tid (tasks m1),
                   effects := effects m1 @ [OnComplete onComplete extents]\<rparr>
           \<and> tid \<notin> fst ` set (tasks m2)
           \<and> onmessage (ExtentsResult tid extents') m2 = m2"
    using m2 notin again unfolding m1_def m2_def Let_def by simp
next
  assume "tid \<notin> fst ` set (tasks m)"
  then have "map_of (tasks m) tid = None"
    by (simp add: map_of_eq_None_iff)
  then show "onmessage (ExtentsResult tid extents) m = m"
    by (rule onmessage_unknown)
qed

text \<open>
  The request \<^verbatim>\<open>t1\<close> with callback 7 is followed by a request \<^verbatim>\<open>t2\<close>, a log
  message and an answer for the unknown id \<^verbatim>\<open>t3\<close>; then the answer for \<^verbatim>\<open>t1\<close>
  arrives. The effects are the two posted tasks, the log entry and one call of
  callback 7; only \<^verbatim>\<open>t2\<close> is still pending.
\<close>

theorem task_correlation_witness:
  "''t3'' \<notin> fst ` set (tasks (scene_manager None))
   \<and> onmessage (ExtentsResult ''t3'' None) (scene_manager None) = scene_manager None
   \<and> onmessage (ExtentsResult ''t1'' (Some \<lparr>minX = 0, minY = 0, maxX = 4, maxY = 2\<rparr>))
       (foldl task_step (requestBbox ''t1'' [1, 2] 7 (scene_manager None))
          [Request ''t2'' [] 8, Message (LogMessage ''info'' None ''x''),
           Message (ExtentsResult ''t3'' None)])
     = (scene_manager None)
         \<lparr>tasks := [(''t2'', \<lparr>task_type = ''get_bbox'', task_buffer = [], task_id = ''t2''\<rparr>, 8)],
          effects := [PostMessage \<lparr>task_type = ''get_bbox'', task_buffer = [1, 2], task_id = ''t1''\<rparr>,
                      PostMessage \<lparr>task_type = ''get_bbox'', task_buffer = [], task_id = ''t2''\<rparr>,
                      WorkerLog ''info'' None ''x'',
                      OnComplete 7 (Some \<lparr>minX = 0, minY = 0, maxX = 4, maxY = 2\<rparr>)]\<rparr>"
proof -
  have other: "\<forall>ev\<in>set [Request ''t2'' [] 8, Message (LogMessage ''info'' None ''x''),
              Message (ExtentsResult ''t3'' None)]. \<not> mentions ''t1'' ev"
    by simp
  have unknown: "''t3'' \<notin> fst ` set (tasks (scene_manager None))"
    by (simp add: scene_manager_def)
  have run: "foldl task_step (requestBbox ''t1'' [1, 2] 7 (scene_manager None))
          [Request ''t2'' [] 8, Message (LogMessage ''info'' None ''x''),
           Message (ExtentsResult ''t3'' None)]
     = (scene_manager None)
         \<lparr>tasks := [(''t1'', \<lparr>task_type = ''get_bbox'', task_buffer = [1, 2], task_id = ''t1''\<rparr>, 7),
                    (''t2'', \<lparr>task_type = ''get_bbox'', task_buffer = [], task_id = ''t2''\<rparr>, 8)],
          effects := [PostMessage \<lparr>task_type = ''get_bbox'', task_buffer = [1, 2], task_id = ''t1''\<rparr>,
                      PostMessage \<lparr>task_type = ''get_bbox'', task_buffer = [], task_id = ''t2''\<rparr>,
                      WorkerLog ''info'' None ''x'']\<rparr>"
  proof -
    have "tasks (scene_manager None) = []" and "effects (scene_manager None) = []"
      by (simp_all add: scene_manager_def)
    then show ?thesis
      by (simp add: requestBbox_def onmessage_def emit_def Let_def)
  qed
  note c = task_correlation
    [of "[Request ''t2'' [] 8, Message (LogMessage ''info'' None ''x''),
          Message (ExtentsResult ''t3'' None)]" "''t1''" "[1, 2]" 7 "scene_manager None"
        "Some \<lparr>minX = 0, minY = 0, maxX = 4, maxY = 2\<rparr>" None]
  note c' = task_correlation [of "[]" "''t3''" "[]" 0 "scene_manager None" None None]
  from c [THEN conjunct1, THEN mp, OF other] c' [THEN conjunct2, THEN mp, OF unknown] unknown
  show ?thesis
    unfolding run Let_def by simp
qed

subsection \<open>Z-order\<close>

lemma arrange_loop_mono:
  "arrange_loop es (al, z) = (al', z') \<Longrightarrow> z \<le> z'"
proof (induction es arbitrary: al z)
  case Nil
  then show ?case by simp
next
  case (Cons e es)
  show ?case
  proof (cases "map_of al (state_id e)")
    case None
    with Cons show ?thesis by simp
  next
    case (Some a)
    with Cons.prems have "arrange_loop es
        (AList.update (state_id e) (a\<lparr>adapter_zIndex := Suc z\<rparr>) al, Suc z) = (al', z')"
      by simp
    from Cons.IH [OF this] show ?thesis by simp
  qed
qed

lemma arrange_loop_other:
  "k \<notin> state_id ` set es \<Longrightarrow> map_of (fst (arrange_loop es (al, z))) k = map_of al k"
  by (induction es arbitrary: al z) (auto simp: update_conv' split: option.splits)

lemma arrange_loop_None:
  "map_of (fst (arrange_loop es (al, z))) k = None \<longleftrightarrow> map_of al k = None"
  by (induction es arbitrary: al z) (auto simp: update_conv' split: option.splits)

lemma zs_of_Cons:
  "zs_of (e # es) al =
     (case map_of al (state_id e) of
        None \<Rightarrow> zs_of es al
      | Some a \<Rightarrow> adapter_zIndex a # zs_of es al)"
  by (simp add: zs_of_def map_filter_simps split: option.splits)

lemma zs_of_Nil [simp]: "zs_of [] al = []"
  by (simp add: zs_of_def map_filter_simps)

lemma length_zs_of_arrange_loop:
  "length (zs_of es' (fst (arrange_loop es (al, z)))) = length (zs_of es' al)"
proof (induction es')
  case Nil
  then show ?case by simp
next
  case (Cons e es')
  show ?case
  proof (cases "map_of al (state_id e)")
    case None
    then have "map_of (fst (arrange_loop es (al, z))) (state_id e) = None"
      by (simp add: arrange_loop_None)
    with None Cons show ?thesis by (simp add: zs_of_Cons)
  next
    case (Some a)
    then have "map_of (fst (arrange_loop es (al, z))) (state_id e) \<noteq> None"
      by (simp add: arrange_loop_None)
    with Some Cons show ?thesis by (auto simp: zs_of_Cons)
  qed
qed

lemma arrange_loop_zs:
  "distinct (map state_id es) \<Longrightarrow> arrange_loop es (al, z) = (al', z') \<Longrightarrow>
   zs_of es al' = [Suc z..<Suc z']"
proof (induction es arbitrary: al z)
  case Nil
  then show ?case by simp
next
  case (Cons e es)
  from Cons.prems have fresh: "state_id e \<notin> state_id ` set es" and dist: "distinct (map state_id es)"
    by simp_all
  show ?case
  proof (cases "map_of al (state_id e)")
    case None
    with Cons.prems have run: "arrange_loop es (al, z) = (al', z')" by simp
    have "map_of al' (state_id e) = None"
      using arrange_loop_None [of es al z "state_id e"] None run by simp
    then have "zs_of (e # es) al' = zs_of es al'" by (simp add: zs_of_Cons)
    with Cons.IH [OF dist run] show ?thesis by simp
  next
    case (Some a)
    let ?al = "AList.update (state_id e) (a\<lparr>adapter_zIndex := Suc z\<rparr>) al"
    from Some Cons.prems have run: "arrange_loop es (?al, Suc z) = (al', z')" by simp
    have "map_of al' (state_id e) = map_of ?al (state_id e)"
      using arrange_loop_other [OF fresh, of ?al "Suc z"] run by simp
    then have "map_of al' (state_id e) = Some (a\<lparr>adapter_zIndex := Suc z\<rparr>)"
      by (simp add: update_conv')
    then have "zs_of (e # es) al' = Suc z # zs_of es al'" by (simp add: zs_of_Cons)
    moreover have "zs_of es al' = [Suc (Suc z)..<Suc z']" by (rule Cons.IH [OF dist run])
    moreover have "Suc z \<le> z'" by (rule arrange_loop_mono [OF run])
    ultimately show ?thesis by (simp add: upt_conv_Cons)
  qed
qed

lemma arrangeEntities_unfold:
  assumes "arrange_loop (st_layers_entities s) (layers m, 2) = (ls, z1)"
    and "arrange_loop (st_controlAdapters_entities s) (controlAdapters m, z1) = (cas, z2)"
    and "arrange_loop (st_regions_entities s) (regions m, z2) = (rgs, z3)"
  shows "arrangeEntities s m =
    m\<lparr>background_zIndex := 1, initialImage_zIndex := 2,
      layers := ls, controlAdapters := cas, regions := rgs,
      inpaintMask := (inpaintMask m)\<lparr>adapter_zIndex := Suc z3\<rparr>,
      preview_zIndex := Suc (Suc z3)\<rparr>"
  using assms by (simp add: arrangeEntities_def Let_def numeral_2_eq_2)

lemma upt_chain:
  "a \<le> b \<Longrightarrow> b \<le> c \<Longrightarrow> [a..<b] @ [b..<c] = [a..<c]"
  by (metis le_Suc_ex upt_add_eq_append)

text \<open>
  Claim C4. When the ids of each entity list of the snapshot are distinct, the
  z-indices that \<^verbatim>\<open>arrangeEntities\<close> leaves behind, read in the order background,
  initial image, layer adapters in snapshot order, control-adapter adapters in
  snapshot order, region adapters in snapshot order, inpaint mask, preview, are
  1, 2, 3, ... without a gap; so they increase strictly along that order, across the
  categories and inside each.
\<close>

theorem arrangeEntities_order:
  assumes "distinct (ids (st_layers_entities s))"
    and "distinct (ids (st_controlAdapters_entities s))"
    and "distinct (ids (st_regions_entities s))"
  shows "z_sequence s (arrangeEntities s m) = [1..<Suc (length (z_sequence s m))]
         \<and> sorted_wrt (<) (z_sequence s (arrangeEntities s m))"
proof -
  obtain ls z1 where l: "arrange_loop (st_layers_entities s) (layers m, 2) = (ls, z1)"
    by (cases "arrange_loop (st_layers_entities s) (layers m, 2)")
  obtain cas z2 where c: "arrange_loop (st_controlAdapters_entities s) (controlAdapters m, z1) = (cas, z2)"
    by (cases "arrange_loop (st_controlAdapters_entities s) (controlAdapters m, z1)")
  obtain rgs z3 where r: "arrange_loop (st_regions_entities s) (regions m, z2) = (rgs, z3)"
    by (cases "arrange_loop (st_regions_entities s) (regions m, z2)")
  note unfold = arrangeEntities_unfold [OF l c r]
  have zl: "zs_of (st_layers_entities s) ls = [3..<Suc z1]"
    using arrange_loop_zs [OF _ l] assms(1) by (simp add: ids_def numeral_3_eq_3 numeral_2_eq_2)
  have zc: "zs_of (st_controlAdapters_entities s) cas = [Suc z1..<Suc z2]"
    using arrange_loop_zs [OF _ c] assms(2) by (simp add: ids_def)
  have zr: "zs_of (st_regions_entities s) rgs = [Suc z2..<Suc z3]"
    using arrange_loop_zs [OF _ r] assms(3) by (simp add: ids_def)
  have le: "2 \<le> z1" "z1 \<le> z2" "z2 \<le> z3"
    using arrange_loop_mono [OF l] arrange_loop_mono [OF c] arrange_loop_mono [OF r] by simp_all
  have "z_sequence s (arrangeEntities s m)
          = [1, 2] @ [3..<Suc z1] @ [Suc z1..<Suc z2] @ [Suc z2..<Suc z3] @ [Suc z3, Suc (Suc z3)]"
    by (simp add: z_sequence_def unfold zl zc zr)
  also have "\<dots> = [1..<Suc (Suc (Suc z3))]"
  proof -
    have a: "[Suc z1..<Suc z2] @ [Suc z2..<Suc z3] = [Suc z1..<Suc z3]"
      by (rule upt_chain) (use le in arith)+
    have b: "[3..<Suc z1] @ [Suc z1..<Suc z3] = [3..<Suc z3]"
      by (rule upt_chain) (use le in arith)+
    have c: "[3..<Suc z3] @ [Suc z3..<Suc (Suc (Suc z3))] = [3..<Suc (Suc (Suc z3))]"
      by (rule upt_chain) (use le in arith)+
    have d: "[1..<3] @ [3..<Suc (Suc (Suc z3))] = [1..<Suc (Suc (Suc z3))]"
      by (rule upt_chain) (use le in arith)+
    have e: "[1..<3] = [1, 2::nat]"
      by (simp add: upt_rec)
    have f: "[Suc z3..<Suc (Suc (Suc z3))] = [Suc z3, Suc (Suc z3)]"
      by (simp add: upt_rec)
    have "[1, 2] @ [3..<Suc z1] @ [Suc z1..<Suc z2] @ [Suc z2..<Suc z3] @ [Suc z3, Suc (Suc z3)]
            = [1..<3] @ ([3..<Suc z1] @ ([Suc z1..<Suc z2] @ [Suc z2..<Suc z3]))
                @ [Suc z3..<Suc (Suc (Suc z3))]"
      unfolding e f by simp
    also have "\<dots> = [1..<3] @ [3..<Suc z3] @ [Suc z3..<Suc (Suc (Suc z3))]"
      unfolding a b by simp
    also have "\<dots> = [1..<Suc (Suc (Suc z3))]"
      unfolding c d ..
    finally show ?thesis .
  qed
  finally have seq: "z_sequence s (arrangeEntities s m) = [1..<Suc (Suc (Suc z3))]" .
  have len: "length (z_sequence s (arrangeEntities s m)) = length (z_sequence s m)"
    using length_zs_of_arrange_loop [of "st_layers_entities s" "st_layers_entities s" "layers m" 2]
      length_zs_of_arrange_loop [of "st_controlAdapters_entities s" "st_controlAdapters_entities s" "controlAdapters m" z1]
      length_zs_of_arrange_loop [of "st_regions_entities s" "st_regions_entities s" "regions m" z2]
    by (simp add: z_sequence_def unfold l c r)
  have "length (z_sequence s (arrangeEntities s m)) = Suc (Suc z3)"
    unfolding seq by (simp only: length_upt)
  with len have "length (z_sequence s m) = Suc (Suc z3)"
    by simp
  with seq show ?thesis
    by (simp only: sorted_wrt_upt simp_thms)
qed

text \<open>
  The store has swapped the two layers; the adapters still carry the z-indices
  of the former order. After the arrangement \<^verbatim>\<open>L2\<close> has 3 and \<^verbatim>\<open>L1\<close> has 4.
\<close>

theorem arrangeEntities_order_witness:
  "distinct (ids (st_layers_entities scene_swapped))
   \<and> distinct (ids (st_controlAdapters_entities scene_swapped))
   \<and> distinct (ids (st_regions_entities scene_swapped))
   \<and> z_sequence scene_swapped (scene_manager None) = [1, 2, 4, 3, 5, 6, 7, 8]
   \<and> z_sequence scene_swapped (arrangeEntities scene_swapped (scene_manager None))
       = [1, 2, 3, 4, 5, 6, 7, 8]
   \<and> sorted_wrt (<) (z_sequence scene_swapped (arrangeEntities scene_swapped (scene_manager None)))
   \<and> map (\<lambda>(k, a). (k, adapter_zIndex a))
        (layers (arrangeEntities scene_swapped (scene_manager None))) = [(''L1'', 4), (''L2'', 3)]"
proof -
  have d: "distinct (ids (st_layers_entities scene_swapped))"
    "distinct (ids (st_controlAdapters_entities scene_swapped))"
    "distinct (ids (st_regions_entities scene_swapped))"
    by (simp_all add: scene_swapped_def snapshot_def entity_def ids_def)
  have before: "z_sequence scene_swapped (scene_manager None) = [1, 2, 4, 3, 5, 6, 7, 8]"
    by (simp add: z_sequence_def zs_of_def scene_swapped_def scene_defs)
  have upt: "[1..<Suc 8] = [1, 2, 3, 4, 5, 6, 7, 8::nat]"
    by (simp add: upt_rec)
  have ls: "map (\<lambda>(k, a). (k, adapter_zIndex a))
        (layers (arrangeEntities scene_swapped (scene_manager None))) = [(''L1'', 4), (''L2'', 3)]"
    by (simp add: arrangeEntities_def Let_def scene_swapped_def scene_defs)
  from arrangeEntities_order [OF d, of "scene_manager None"] d before ls show ?thesis
    by (simp only: upt list.size length_Cons)  simp
qed

subsection \<open>Reconciling one collection\<close>

lemma set_delete_subset: "set (AList.delete k al) \<subseteq> set al"
  by (auto simp: AList.delete_eq)

lemma set_update_subset: "set (AList.update k v al) \<subseteq> insert (k, v) (set al)"
  by (induction al) auto

lemma in_ids_iff: "k \<in> set (ids entities) \<longleftrightarrow> (\<exists>e\<in>set entities. state_id e = k)"
  by (auto simp: ids_def)

lemma find_id_None: "find (\<lambda>e. state_id e = k) entities = None \<longleftrightarrow> k \<notin> set (ids entities)"
  by (auto simp: find_None_iff ids_def)


lemma destroy_loop_subset:
  "set (fst (destroy_loop kind entities rest acc)) \<subseteq> set (fst acc)"
proof (induction kind entities rest acc rule: destroy_loop.induct)
  case (1 kind entities al effs)
  then show ?case by simp
next
  case (2 kind entities k' v rest al effs)
  show ?case
  proof (cases "find (\<lambda>e. state_id e = adapter_id v) entities = None")
    case True
    with "2.IH"(1) [OF True] set_delete_subset [of "adapter_id v" al] show ?thesis
      by auto
  next
    case False
    from "2.IH"(2) [OF False] show ?thesis
      by (simp add: False)
  qed
qed

lemma destroy_loop_distinct:
  "distinct (map fst (fst acc)) \<Longrightarrow>
   distinct (map fst (fst (destroy_loop kind entities rest acc)))"
proof (induction kind entities rest acc rule: destroy_loop.induct)
  case (1 kind entities al effs)
  then show ?case by simp
next
  case (2 kind entities k' v rest al effs)
  show ?case
  proof (cases "find (\<lambda>e. state_id e = adapter_id v) entities = None")
    case True
    from "2.prems" have "distinct (map fst (AList.delete (adapter_id v) al))"
      by (simp add: distinct_delete)
    with True "2.IH"(1) [OF True] show ?thesis
      by simp
  next
    case False
    from "2.IH"(2) [OF False] "2.prems" show ?thesis
      by (simp add: False)
  qed
qed

text \<open>
  When the entries still to visit are stored under their own ids, the first loop
  deletes exactly those of them whose id the entity list does not hold.
\<close>

lemma destroy_loop_deletes:
  "\<forall>(k, v) \<in> set rest. adapter_id v = k \<Longrightarrow>
   map_of (fst (destroy_loop kind entities rest acc)) k =
     (if k \<in> fst ` set rest \<and> k \<notin> set (ids entities) then None else map_of (fst acc) k)"
proof (induction kind entities rest acc arbitrary: k rule: destroy_loop.induct)
  case (1 kind entities al effs)
  then show ?case by simp
next
  case (2 kind entities k' v rest al effs)
  from "2.prems" have own: "adapter_id v = k'" and rest: "\<forall>(k, v) \<in> set rest. adapter_id v = k"
    by auto
  show ?case
  proof (cases "find (\<lambda>e. state_id e = adapter_id v) entities = None")
    case True
    then have absent: "k' \<notin> set (ids entities)"
      by (simp add: find_id_None own)
    have "\<forall>(k, v) \<in> set (AList.delete (adapter_id v) rest). adapter_id v = k"
      using rest set_delete_subset [of "adapter_id v" rest] by blast
    from "2.IH"(1) [OF True this, of k] True
    have step: "map_of (fst (destroy_loop kind entities ((k', v) # rest) (al, effs))) k =
        (if k \<in> fst ` set (AList.delete k' rest) \<and> k \<notin> set (ids entities) then None
         else map_of (AList.delete k' al) k)"
      by (simp add: own)
    show ?thesis
    proof (cases "k = k'")
      case True
      with step absent show ?thesis
        by (simp add: delete_notin_dom delete_conv')
    next
      case False
      then have "k \<in> fst ` set (AList.delete k' rest) \<longleftrightarrow> k \<in> fst ` set rest"
        by (force simp: AList.delete_eq)
      with step False show ?thesis
        by (auto simp: delete_conv')
    qed
  next
    case False
    then have present: "k' \<in> set (ids entities)"
      by (simp add: find_id_None own)
    from "2.IH"(2) [OF False rest, of k] present show ?thesis
      by (auto simp: find_id_None own)
  qed
qed


text \<open>The second loop.\<close>

lemma create_loop_keys:
  "fst ` set (fst (create_loop kind upd entities (al, n, effs)))
     = fst ` set al \<union> set (ids entities)"
proof (induction entities arbitrary: al n effs)
  case Nil
  then show ?case by (simp add: ids_def)
next
  case (Cons e es)
  show ?case
  proof (cases "map_of al (state_id e)")
    case None
    then show ?thesis
      by (auto simp: Cons.IH dom_update new_adapter_def ids_def Let_def)
  next
    case (Some a)
    then have "state_id e \<in> fst ` set al"
      by (metis map_of_eq_None_iff option.distinct(1))
    with Some show ?thesis
      by (auto simp: Cons.IH dom_update ids_def)
  qed
qed

lemma create_loop_distinct:
  "distinct (map fst al) \<Longrightarrow>
   distinct (map fst (fst (create_loop kind upd entities (al, n, effs))))"
  by (induction entities arbitrary: al n effs)
     (auto simp: distinct_update Let_def split: option.splits)

lemma create_loop_own_id:
  "\<forall>(k, v) \<in> set al. adapter_id v = k \<Longrightarrow>
   \<forall>(k, v) \<in> set (fst (create_loop kind upd entities (al, n, effs))). adapter_id v = k"
proof (induction entities arbitrary: al n effs)
  case Nil
  then show ?case by simp
next
  case (Cons e es)
  show ?case
  proof (cases "map_of al (state_id e)")
    case None
    let ?a = "(new_adapter kind e n)\<lparr>adapter_state := e\<rparr>"
    have "\<forall>(k, v) \<in> set (AList.update (state_id e) ?a al). adapter_id v = k"
      using Cons.prems set_update_subset [of "state_id e" ?a al]
      by (auto simp: new_adapter_def)
    from Cons.IH [OF this] None show ?thesis
      by (simp add: Let_def new_adapter_def)
  next
    case (Some a)
    then have "(state_id e, a) \<in> set al"
      by (rule map_of_SomeD)
    with Cons.prems have "adapter_id a = state_id e"
      by auto
    then have "\<forall>(k, v) \<in> set (AList.update (state_id e) (a\<lparr>adapter_state := e\<rparr>) al). adapter_id v = k"
      using Cons.prems set_update_subset [of "state_id e" "a\<lparr>adapter_state := e\<rparr>" al]
      by auto
    from Cons.IH [OF this] Some show ?thesis
      by simp
  qed
qed



text \<open>Both loops together.\<close>

lemma reconcile_mirrors:
  assumes "keyed al" and "reconcile kind upd entities (al, n) = (al', n', effs)"
  shows "mirrors entities al'"
proof -
  obtain al1 effs1 where d: "destroy_loop kind entities al (al, []) = (al1, effs1)"
    by (cases "destroy_loop kind entities al (al, [])")
  from assms(2) d have c: "create_loop kind upd entities (al1, n, effs1) = (al', n', effs)"
    by (simp add: reconcile_def)
  from assms(1) have dist: "distinct (map fst al)" and own: "\<forall>(k, v) \<in> set al. adapter_id v = k"
    by (simp_all add: keyed_def keys_def)
  have sub: "set al1 \<subseteq> set al"
    using destroy_loop_subset [where kind = kind and entities = entities and rest = al
        and acc = "(al, [])"] d by simp
  have dist1: "distinct (map fst al1)"
    using destroy_loop_distinct [where kind = kind and entities = entities and rest = al
        and acc = "(al, [])"] dist d by simp
  have own1: "\<forall>(k, v) \<in> set al1. adapter_id v = k"
    using own sub by blast
  have "fst ` set al1 \<subseteq> set (ids entities)"
  proof
    fix k assume k: "k \<in> fst ` set al1"
    then have "k \<in> fst ` set al" using sub by auto
    moreover have "map_of al1 k \<noteq> None" using k by (simp add: map_of_eq_None_iff)
    ultimately show "k \<in> set (ids entities)"
      using destroy_loop_deletes [OF own, where kind = kind and entities = entities
          and acc = "(al, [])" and k = k] d
      by (auto split: if_splits)
  qed
  then have "fst ` set al' = set (ids entities)"
    using create_loop_keys [where kind = kind and upd = upd and entities = entities
        and al = al1 and n = n and effs = effs1] c by auto
  moreover have "distinct (map fst al')"
    using create_loop_distinct [OF dist1, where kind = kind and upd = upd
        and entities = entities and n = n and effs = effs1] c by simp
  moreover have "\<forall>(k, v) \<in> set al'. adapter_id v = k"
    using create_loop_own_id [OF own1, where kind = kind and upd = upd
        and entities = entities and n = n and effs = effs1] c by simp
  ultimately show ?thesis
    by (simp add: mirrors_def keyed_def keys_def)
qed



subsection \<open>What each block of the render cycle touches\<close>

lemma emit_fields [simp]:
  "layers (emit es m) = layers m"
  "controlAdapters (emit es m) = controlAdapters m"
  "regions (emit es m) = regions m"
  "inpaintMask (emit es m) = inpaintMask m"
  "prevState (emit es m) = prevState m"
  "isFirstRender (emit es m) = isFirstRender m"
  "next_inst (emit es m) = next_inst m"
  "effects (emit es m) = effects m @ es"
  by (simp_all add: emit_def)

lemma renderLayers_fields [simp]:
  "controlAdapters (renderLayers s m) = controlAdapters m"
  "regions (renderLayers s m) = regions m"
  "prevState (renderLayers s m) = prevState m"
  "isFirstRender (renderLayers s m) = isFirstRender m"
  by (simp_all add: renderLayers_def split: prod.splits)

lemma renderRegions_fields [simp]:
  "layers (renderRegions s m) = layers m"
  "controlAdapters (renderRegions s m) = controlAdapters m"
  "prevState (renderRegions s m) = prevState m"
  "isFirstRender (renderRegions s m) = isFirstRender m"
  by (simp_all add: renderRegions_def split: prod.splits)

lemma renderControlAdapters_fields [simp]:
  "layers (renderControlAdapters s m) = layers m"
  "regions (renderControlAdapters s m) = regions m"
  "prevState (renderControlAdapters s m) = prevState m"
  "isFirstRender (renderControlAdapters s m) = isFirstRender m"
  by (simp_all add: renderControlAdapters_def split: prod.splits)

lemma renderLayers_reconcile:
  "\<exists>n effs. reconcile layer (\<lambda>e i. Update i e (st_tool s) (selected_id s = Some (state_id e)))
              (st_layers_entities s) (layers m, next_inst m) = (layers (renderLayers s m), n, effs)
           \<and> effects (renderLayers s m) = effects m @ effs"
  by (simp add: renderLayers_def split: prod.splits)

lemma renderRegions_reconcile:
  "\<exists>n effs. reconcile regional_guidance (\<lambda>e i. Render i e)
              (st_regions_entities s) (regions m, next_inst m) = (regions (renderRegions s m), n, effs)
           \<and> effects (renderRegions s m) = effects m @ effs"
  by (simp add: renderRegions_def split: prod.splits)

lemma renderControlAdapters_reconcile:
  "\<exists>n effs. reconcile control_adapter (\<lambda>e i. Render i e)
              (st_controlAdapters_entities s) (controlAdapters m, next_inst m)
                = (controlAdapters (renderControlAdapters s m), n, effs)
           \<and> effects (renderControlAdapters s m) = effects m @ effs"
  by (simp add: renderControlAdapters_def split: prod.splits)

lemma render_layers_fields [simp]:
  "controlAdapters (render_layers s m) = controlAdapters m"
  "regions (render_layers s m) = regions m"
  "prevState (render_layers s m) = prevState m"
  "isFirstRender (render_layers s m) = isFirstRender m"
  by (simp_all add: render_layers_def)

lemma render_initialImage_fields [simp]:
  "layers (render_initialImage s m) = layers m"
  "controlAdapters (render_initialImage s m) = controlAdapters m"
  "regions (render_initialImage s m) = regions m"
  "prevState (render_initialImage s m) = prevState m"
  "isFirstRender (render_initialImage s m) = isFirstRender m"
  by (simp_all add: render_initialImage_def)

lemma render_regions_fields [simp]:
  "layers (render_regions s m) = layers m"
  "controlAdapters (render_regions s m) = controlAdapters m"
  "prevState (render_regions s m) = prevState m"
  "isFirstRender (render_regions s m) = isFirstRender m"
  by (simp_all add: render_regions_def)

lemma render_inpaintMask_fields [simp]:
  "layers (render_inpaintMask s m) = layers m"
  "controlAdapters (render_inpaintMask s m) = controlAdapters m"
  "regions (render_inpaintMask s m) = regions m"
  "prevState (render_inpaintMask s m) = prevState m"
  "isFirstRender (render_inpaintMask s m) = isFirstRender m"
  by (simp_all add: render_inpaintMask_def)

lemma render_controlAdapters_fields [simp]:
  "layers (render_controlAdapters s m) = layers m"
  "regions (render_controlAdapters s m) = regions m"
  "prevState (render_controlAdapters s m) = prevState m"
  "isFirstRender (render_controlAdapters s m) = isFirstRender m"
  by (simp_all add: render_controlAdapters_def)

lemma render_publish_fields [simp]:
  "layers (render_publish s m) = layers m"
  "controlAdapters (render_publish s m) = controlAdapters m"
  "regions (render_publish s m) = regions m"
  "prevState (render_publish s m) = prevState m"
  "isFirstRender (render_publish s m) = isFirstRender m"
  by (simp_all add: render_publish_def)

lemma render_bbox_fields [simp]:
  "layers (render_bbox s m) = layers m"
  "controlAdapters (render_bbox s m) = controlAdapters m"
  "regions (render_bbox s m) = regions m"
  "prevState (render_bbox s m) = prevState m"
  "isFirstRender (render_bbox s m) = isFirstRender m"
  by (simp_all add: render_bbox_def)

lemma render_stagingArea_fields [simp]:
  "layers (render_stagingArea s m) = layers m"
  "controlAdapters (render_stagingArea s m) = controlAdapters m"
  "regions (render_stagingArea s m) = regions m"
  "prevState (render_stagingArea s m) = prevState m"
  "isFirstRender (render_stagingArea s m) = isFirstRender m"
  by (simp_all add: render_stagingArea_def)

text \<open>The arrangement rewrites z-indices only.\<close>

lemma arrange_loop_keys:
  "map fst (fst (arrange_loop es (al, z))) = map fst al"
proof (induction es arbitrary: al z)
  case Nil
  then show ?case by simp
next
  case (Cons e es)
  show ?case
  proof (cases "map_of al (state_id e)")
    case None
    with Cons.IH show ?thesis by simp
  next
    case (Some a)
    then have "state_id e \<in> set (map fst al)"
      by (metis map_of_eq_None_iff option.distinct(1) set_map)
    with Some Cons.IH show ?thesis
      by (simp add: update_keys)
  qed
qed

lemma arrange_loop_own_id:
  "\<forall>(k, v) \<in> set al. adapter_id v = k \<Longrightarrow>
   \<forall>(k, v) \<in> set (fst (arrange_loop es (al, z))). adapter_id v = k"
proof (induction es arbitrary: al z)
  case Nil
  then show ?case by simp
next
  case (Cons e es)
  show ?case
  proof (cases "map_of al (state_id e)")
    case None
    with Cons show ?thesis by simp
  next
    case (Some a)
    then have "(state_id e, a) \<in> set al"
      by (rule map_of_SomeD)
    with Cons.prems have "adapter_id a = state_id e"
      by auto
    then have "\<forall>(k, v) \<in> set (AList.update (state_id e) (a\<lparr>adapter_zIndex := Suc z\<rparr>) al).
                 adapter_id v = k"
      using Cons.prems set_update_subset [of "state_id e" "a\<lparr>adapter_zIndex := Suc z\<rparr>" al]
      by auto
    from Cons.IH [OF this] Some show ?thesis
      by simp
  qed
qed


lemma arrange_loop_keyed:
  "keyed al \<Longrightarrow> keyed (fst (arrange_loop es (al, z)))"
  using arrange_loop_own_id [of al es z]
  by (simp add: keyed_def keys_def arrange_loop_keys)

lemma arrangeEntities_collections:
  "\<exists>z. layers (arrangeEntities s m) = fst (arrange_loop (st_layers_entities s) (layers m, z))"
  "\<exists>z. controlAdapters (arrangeEntities s m)
          = fst (arrange_loop (st_controlAdapters_entities s) (controlAdapters m, z))"
  "\<exists>z. regions (arrangeEntities s m) = fst (arrange_loop (st_regions_entities s) (regions m, z))"
  by (simp_all add: arrangeEntities_def Let_def split: prod.splits) (metis fst_conv)+

lemma arrangeEntities_fields [simp]:
  "prevState (arrangeEntities s m) = prevState m"
  "isFirstRender (arrangeEntities s m) = isFirstRender m"
  "effects (arrangeEntities s m) = effects m"
  by (simp_all add: arrangeEntities_def Let_def split: prod.splits)

lemma render_arrange_fields [simp]:
  "prevState (render_arrange s m) = prevState m"
  "isFirstRender (render_arrange s m) = isFirstRender m"
  by (simp_all add: render_arrange_def)

lemma render_arrange_cases:
  "render_arrange s m = m
   \<or> render_arrange s m = arrangeEntities s (emit [Log ''Arranging entities''] m)"
  by (simp add: render_arrange_def)

lemma render_arrange_collections:
  "\<exists>es z. layers (render_arrange s m) = fst (arrange_loop es (layers m, z))"
  "\<exists>es z. controlAdapters (render_arrange s m) = fst (arrange_loop es (controlAdapters m, z))"
  "\<exists>es z. regions (render_arrange s m) = fst (arrange_loop es (regions m, z))"
proof -
  have nil: "\<exists>es z. al = fst (arrange_loop es (al, z))" for al :: "(string \<times> Adapter) list"
  proof -
    have "al = fst (arrange_loop [] (al, 0))" by simp
    then show ?thesis by blast
  qed
  let ?m = "emit [Log ''Arranging entities''] m"
  from render_arrange_cases [of s m]
  show "\<exists>es z. layers (render_arrange s m) = fst (arrange_loop es (layers m, z))"
  proof
    assume "render_arrange s m = m"
    with nil [of "layers m"] show ?thesis by simp
  next
    assume "render_arrange s m = arrangeEntities s ?m"
    with arrangeEntities_collections(1) [of s ?m] show ?thesis by auto
  qed
  from render_arrange_cases [of s m]
  show "\<exists>es z. controlAdapters (render_arrange s m) = fst (arrange_loop es (controlAdapters m, z))"
  proof
    assume "render_arrange s m = m"
    with nil [of "controlAdapters m"] show ?thesis by simp
  next
    assume "render_arrange s m = arrangeEntities s ?m"
    with arrangeEntities_collections(2) [of s ?m] show ?thesis by auto
  qed
  from render_arrange_cases [of s m]
  show "\<exists>es z. regions (render_arrange s m) = fst (arrange_loop es (regions m, z))"
  proof
    assume "render_arrange s m = m"
    with nil [of "regions m"] show ?thesis by simp
  next
    assume "render_arrange s m = arrangeEntities s ?m"
    with arrangeEntities_collections(3) [of s ?m] show ?thesis by auto
  qed
qed

subsection \<open>The render cycle\<close>

lemma render_fast:
  "st_ref (prevState m) = st_ref s \<and> \<not> isFirstRender m \<Longrightarrow>
   render s m = emit [Log ''No changes detected, skipping render''] m"
  by (simp add: render_def)

lemma render_slow:
  "\<not> (st_ref (prevState m) = st_ref s \<and> \<not> isFirstRender m) \<Longrightarrow>
   render s m =
     (render_arrange s (render_stagingArea s (render_bbox s (render_publish s
        (render_controlAdapters s (render_inpaintMask s (render_regions s
           (render_initialImage s (render_layers s m)))))))))
       \<lparr>prevState := s, isFirstRender := False\<rparr>"
  by (auto simp: render_def Let_def)

lemma render_done:
  "st_ref (prevState (render s m)) = st_ref s \<and> \<not> isFirstRender (render s m)"
proof (cases "st_ref (prevState m) = st_ref s \<and> \<not> isFirstRender m")
  case True
  then show ?thesis by (simp add: render_fast)
next
  case False
  then show ?thesis by (simp add: render_slow)
qed

subsection \<open>Convergence of the collections\<close>

lemma mirrors_arrange_loop:
  "mirrors entities al \<Longrightarrow> mirrors entities (fst (arrange_loop es (al, z)))"
  using arrange_loop_keyed [of al es z]
  by (simp add: mirrors_def keys_def arrange_loop_keys)

lemma keyed_Nil [simp]: "keyed []"
  by (simp add: keyed_def keys_def)

lemma mirrors_keyed: "mirrors entities al \<Longrightarrow> keyed al"
  by (simp add: mirrors_def)

lemma render_layers_cases:
  "(render_layers s m = m \<and> \<not> isFirstRender m
      \<and> st_layers_entities_ref s = st_layers_entities_ref (prevState m))
   \<or> render_layers s m = renderLayers s (emit [Log ''Rendering layers''] m)"
  by (simp add: render_layers_def)

lemma render_regions_cases:
  "(render_regions s m = m \<and> \<not> isFirstRender m
      \<and> st_regions_entities_ref s = st_regions_entities_ref (prevState m))
   \<or> render_regions s m = renderRegions s (emit [Log ''Rendering regions''] m)"
  by (simp add: render_regions_def)

lemma render_controlAdapters_cases:
  "(render_controlAdapters s m = m \<and> \<not> isFirstRender m
      \<and> st_controlAdapters_entities_ref s = st_controlAdapters_entities_ref (prevState m))
   \<or> render_controlAdapters s m = renderControlAdapters s (emit [Log ''Rendering control adapters''] m)"
  by (simp add: render_controlAdapters_def)

lemma render_layers_mirrors:
  assumes "keyed (layers m)"
    and "isFirstRender m \<or> (st_layers_entities_ref s = st_layers_entities_ref (prevState m)
                               \<longrightarrow> mirrors (st_layers_entities s) (layers m))"
  shows "mirrors (st_layers_entities s) (layers (render_layers s m))"
  using render_layers_cases [of s m]
proof
  assume "render_layers s m = m \<and> \<not> isFirstRender m
      \<and> st_layers_entities_ref s = st_layers_entities_ref (prevState m)"
  with assms(2) show ?thesis by simp
next
  let ?m = "emit [Log ''Rendering layers''] m"
  assume run: "render_layers s m = renderLayers s ?m"
  from renderLayers_reconcile [of s ?m] obtain n effs where
    "reconcile layer (\<lambda>e i. Update i e (st_tool s) (selected_id s = Some (state_id e)))
       (st_layers_entities s) (layers m, next_inst m) = (layers (renderLayers s ?m), n, effs)"
    by auto
  from reconcile_mirrors [OF assms(1) this] run show ?thesis
    by simp
qed

lemma render_regions_mirrors:
  assumes "keyed (regions m)"
    and "isFirstRender m \<or> (st_regions_entities_ref s = st_regions_entities_ref (prevState m)
                               \<longrightarrow> mirrors (st_regions_entities s) (regions m))"
  shows "mirrors (st_regions_entities s) (regions (render_regions s m))"
  using render_regions_cases [of s m]
proof
  assume "render_regions s m = m \<and> \<not> isFirstRender m
      \<and> st_regions_entities_ref s = st_regions_entities_ref (prevState m)"
  with assms(2) show ?thesis by simp
next
  let ?m = "emit [Log ''Rendering regions''] m"
  assume run: "render_regions s m = renderRegions s ?m"
  from renderRegions_reconcile [of s ?m] obtain n effs where
    "reconcile regional_guidance (\<lambda>e i. Render i e)
       (st_regions_entities s) (regions m, next_inst m) = (regions (renderRegions s ?m), n, effs)"
    by auto
  from reconcile_mirrors [OF assms(1) this] run show ?thesis
    by simp
qed

lemma render_controlAdapters_mirrors:
  assumes "keyed (controlAdapters m)"
    and "isFirstRender m
         \<or> (st_controlAdapters_entities_ref s = st_controlAdapters_entities_ref (prevState m)
              \<longrightarrow> mirrors (st_controlAdapters_entities s) (controlAdapters m))"
  shows "mirrors (st_controlAdapters_entities s) (controlAdapters (render_controlAdapters s m))"
  using render_controlAdapters_cases [of s m]
proof
  assume "render_controlAdapters s m = m \<and> \<not> isFirstRender m
      \<and> st_controlAdapters_entities_ref s = st_controlAdapters_entities_ref (prevState m)"
  with assms(2) show ?thesis by simp
next
  let ?m = "emit [Log ''Rendering control adapters''] m"
  assume run: "render_controlAdapters s m = renderControlAdapters s ?m"
  from renderControlAdapters_reconcile [of s ?m] obtain n effs where
    "reconcile control_adapter (\<lambda>e i. Render i e)
       (st_controlAdapters_entities s) (controlAdapters m, next_inst m)
         = (controlAdapters (renderControlAdapters s ?m), n, effs)"
    by auto
  from reconcile_mirrors [OF assms(1) this] run show ?thesis
    by simp
qed

text \<open>One \<^verbatim>\<open>render\<close> keeps the invariant and brings the collections to the snapshot.\<close>

lemma render_reconciled:
  assumes inv: "reconciled m"
    and heap: "isFirstRender m \<or> same_heap (prevState m) s"
  shows "reconciled (render s m) \<and> \<not> isFirstRender (render s m) \<and> prevState (render s m) = s"
proof (cases "st_ref (prevState m) = st_ref s \<and> \<not> isFirstRender m")
  case True
  with heap have "prevState m = s"
    by (simp add: same_heap_def)
  with True inv show ?thesis
    by (simp add: render_fast reconciled_def)
next
  case False
  let ?m1 = "render_layers s m"
  let ?m2 = "render_initialImage s ?m1"
  let ?m3 = "render_regions s ?m2"
  let ?m4 = "render_inpaintMask s ?m3"
  let ?m5 = "render_controlAdapters s ?m4"
  let ?m8 = "render_stagingArea s (render_bbox s (render_publish s ?m5))"
  let ?m9 = "render_arrange s ?m8"
  have r: "render s m = ?m9\<lparr>prevState := s, isFirstRender := False\<rparr>"
    by (rule render_slow [OF False])
  from inv have k: "keyed (layers m)" "keyed (controlAdapters m)" "keyed (regions m)"
    by (simp_all add: reconciled_def)
  have old: "mirrors (st_layers_entities (prevState m)) (layers m)
           \<and> mirrors (st_controlAdapters_entities (prevState m)) (controlAdapters m)
           \<and> mirrors (st_regions_entities (prevState m)) (regions m)"
    if "\<not> isFirstRender m"
    using inv that by (simp add: reconciled_def)
  have same: "same_heap (prevState m) s" if "\<not> isFirstRender m"
    using heap that by simp
  have pre: "isFirstRender m
     \<or> ((st_layers_entities_ref s = st_layers_entities_ref (prevState m)
            \<longrightarrow> mirrors (st_layers_entities s) (layers m))
        \<and> (st_controlAdapters_entities_ref s = st_controlAdapters_entities_ref (prevState m)
            \<longrightarrow> mirrors (st_controlAdapters_entities s) (controlAdapters m))
        \<and> (st_regions_entities_ref s = st_regions_entities_ref (prevState m)
            \<longrightarrow> mirrors (st_regions_entities s) (regions m)))"
  proof (cases "isFirstRender m")
    case True
    then show ?thesis by simp
  next
    case False
    from same [OF False] have
      "st_layers_entities_ref s = st_layers_entities_ref (prevState m)
         \<longrightarrow> st_layers_entities (prevState m) = st_layers_entities s"
      "st_controlAdapters_entities_ref s = st_controlAdapters_entities_ref (prevState m)
         \<longrightarrow> st_controlAdapters_entities (prevState m) = st_controlAdapters_entities s"
      "st_regions_entities_ref s = st_regions_entities_ref (prevState m)
         \<longrightarrow> st_regions_entities (prevState m) = st_regions_entities s"
      by (simp_all add: same_heap_def)
    with old [OF False] show ?thesis
      by auto
  qed
  have "mirrors (st_layers_entities s) (layers ?m1)"
  proof (rule render_layers_mirrors [OF k(1)])
    show "isFirstRender m \<or> (st_layers_entities_ref s = st_layers_entities_ref (prevState m)
            \<longrightarrow> mirrors (st_layers_entities s) (layers m))"
      using pre by auto
  qed
  then have "mirrors (st_layers_entities s) (layers ?m8)"
    by simp
  then have l: "mirrors (st_layers_entities s) (layers ?m9)"
    using render_arrange_collections(1) [of s ?m8] mirrors_arrange_loop by auto
  have "mirrors (st_regions_entities s) (regions ?m3)"
  proof (rule render_regions_mirrors)
    show "keyed (regions ?m2)" using k(3) by simp
    show "isFirstRender ?m2 \<or> (st_regions_entities_ref s = st_regions_entities_ref (prevState ?m2)
            \<longrightarrow> mirrors (st_regions_entities s) (regions ?m2))"
      using pre by auto
  qed
  then have "mirrors (st_regions_entities s) (regions ?m8)"
    by simp
  then have g: "mirrors (st_regions_entities s) (regions ?m9)"
    using render_arrange_collections(3) [of s ?m8] mirrors_arrange_loop by auto
  have "mirrors (st_controlAdapters_entities s) (controlAdapters ?m5)"
  proof (rule render_controlAdapters_mirrors)
    show "keyed (controlAdapters ?m4)" using k(2) by simp
    show "isFirstRender ?m4
          \<or> (st_controlAdapters_entities_ref s = st_controlAdapters_entities_ref (prevState ?m4)
               \<longrightarrow> mirrors (st_controlAdapters_entities s) (controlAdapters ?m4))"
      using pre by auto
  qed
  then have "mirrors (st_controlAdapters_entities s) (controlAdapters ?m8)"
    by simp
  then have c: "mirrors (st_controlAdapters_entities s) (controlAdapters ?m9)"
    using render_arrange_collections(2) [of s ?m8] mirrors_arrange_loop by auto
  from l g c show ?thesis
    unfolding r by (simp add: reconciled_def mirrors_keyed)
qed

lemma reconciled_new: "reconciled (CanvasManager_new s0)"
  by (simp add: reconciled_def CanvasManager_new_def)

subsection \<open>Identity of the adapters\<close>





text \<open>What the render cycle destroys.\<close>

lemma absent_only_Nil [simp]: "absent_only s []"
  by (simp add: absent_only_def)


lemma destroys_absent_refl [simp]: "destroys_absent s m m"
  by (simp add: destroys_absent_def)











subsection \<open>A pass that runs alone\<close>

text \<open>
  A pass that is started and resumed to its end, with no other pass in between,
  does what \<open>render\<close> does.
\<close>

lemma create_loop_append:
  "create_loop kind upd (xs @ ys) acc = create_loop kind upd ys (create_loop kind upd xs acc)"
proof (induction xs arbitrary: acc)
  case Nil
  then show ?case by simp
next
  case (Cons e es)
  obtain al n effs where acc: "acc = (al, n, effs)"
    by (cases acc)
  show ?case
    unfolding acc by (cases "map_of al (state_id e)") (simp_all add: Cons.IH Let_def)
qed

lemma create_loop_effs:
  "create_loop kind upd es (al, n, effs) =
     (case create_loop kind upd es (al, n, []) of (al', n', effs') \<Rightarrow> (al', n', effs @ effs'))"
proof (induction es arbitrary: al n effs)
  case Nil
  then show ?case by simp
next
  case (Cons e es)
  show ?case
  proof (cases "map_of al (state_id e)")
    case None
    let ?al = "AList.update (adapter_id (new_adapter kind e n))
                 ((new_adapter kind e n)\<lparr>adapter_state := e\<rparr>) al"
    let ?new = "[New kind (adapter_id (new_adapter kind e n)) n, StageAdd n, upd e n]"
    have "create_loop kind upd (e # es) (al, n, effs) = create_loop kind upd es (?al, Suc n, effs @ ?new)"
      and "create_loop kind upd (e # es) (al, n, []) = create_loop kind upd es (?al, Suc n, ?new)"
      using None by (simp_all add: Let_def)
    then show ?thesis
      using Cons.IH [of ?al "Suc n" "effs @ ?new"] Cons.IH [of ?al "Suc n" ?new]
      by (simp split: prod.splits)
  next
    case (Some a)
    let ?al = "AList.update (state_id e) (a\<lparr>adapter_state := e\<rparr>) al"
    let ?new = "[upd e (adapter_inst a)]"
    have "create_loop kind upd (e # es) (al, n, effs) = create_loop kind upd es (?al, n, effs @ ?new)"
      and "create_loop kind upd (e # es) (al, n, []) = create_loop kind upd es (?al, n, ?new)"
      using Some by simp_all
    then show ?thesis
      using Cons.IH [of ?al n "effs @ ?new"] Cons.IH [of ?al n ?new]
      by (simp split: prod.splits)
  qed
qed

lemma layers_loop_Nil [simp]: "layers_loop s [] m = m"
  by (simp add: layers_loop_def emit_def)

lemma layers_loop_Cons:
  "layers_loop s (e # es) m = layers_loop s es (layers_loop s [e] m)"
proof -
  let ?upd = "\<lambda>e i. Update i e (st_tool s) (selected_id s = Some (state_id e))"
  obtain al1 n1 effs1 where one:
    "create_loop layer ?upd [e] (layers m, next_inst m, []) = (al1, n1, effs1)"
    by (cases "create_loop layer ?upd [e] (layers m, next_inst m, [])")
  obtain al2 n2 effs2 where two:
    "create_loop layer ?upd es (al1, n1, []) = (al2, n2, effs2)"
    by (cases "create_loop layer ?upd es (al1, n1, [])")
  have "create_loop layer ?upd (e # es) (layers m, next_inst m, [])
          = create_loop layer ?upd es (al1, n1, effs1)"
    using create_loop_append [of layer ?upd "[e]" es "(layers m, next_inst m, [])"] one
    by simp
  also have "\<dots> = (al2, n2, effs1 @ effs2)"
    using create_loop_effs [of layer ?upd es al1 n1 effs1] two by simp
  finally have all: "create_loop layer ?upd (e # es) (layers m, next_inst m, [])
          = (al2, n2, effs1 @ effs2)" .
  have "layers_loop s [e] m = emit effs1 (m\<lparr>layers := al1, next_inst := n1\<rparr>)"
    unfolding layers_loop_def one by simp
  then have "layers_loop s es (layers_loop s [e] m)
               = emit (effs1 @ effs2) (m\<lparr>layers := al2, next_inst := n2\<rparr>)"
    unfolding layers_loop_def [of s es] by (simp add: two emit_def)
  moreover have "layers_loop s (e # es) m = emit (effs1 @ effs2) (m\<lparr>layers := al2, next_inst := n2\<rparr>)"
    unfolding layers_loop_def all by simp
  ultimately show ?thesis by simp
qed

lemma renderLayers_split:
  assumes "destroy_loop layer (st_layers_entities s) (layers m) (layers m, []) = (al, effs)"
  shows "renderLayers s m = layers_loop s (st_layers_entities s) (emit effs (m\<lparr>layers := al\<rparr>))"
proof -
  let ?upd = "\<lambda>e i. Update i e (st_tool s) (selected_id s = Some (state_id e))"
  obtain al2 n2 effs2 where two:
    "create_loop layer ?upd (st_layers_entities s) (al, next_inst m, []) = (al2, n2, effs2)"
    by (cases "create_loop layer ?upd (st_layers_entities s) (al, next_inst m, [])")
  have "create_loop layer ?upd (st_layers_entities s) (al, next_inst m, effs) = (al2, n2, effs @ effs2)"
    using create_loop_effs [of layer ?upd "st_layers_entities s" al "next_inst m" effs] two by simp
  then have "renderLayers s m = emit (effs @ effs2) (m\<lparr>layers := al2, next_inst := n2\<rparr>)"
    by (simp add: renderLayers_def reconcile_def assms)
  moreover have "layers_loop s (st_layers_entities s) (emit effs (m\<lparr>layers := al\<rparr>))
                   = emit (effs @ effs2) (m\<lparr>layers := al2, next_inst := n2\<rparr>)"
    unfolding layers_loop_def by (simp add: two emit_def)
  ultimately show ?thesis by simp
qed

lemma at_same:
  "render_regions_at s s m = render_regions s m"
  "render_controlAdapters_at s s m = render_controlAdapters s m"
  "render_publish_at s s m = render_publish s m"
  "render_arrange_at s s m = render_arrange s m"
  by (simp_all add: render_regions_at_def render_regions_def render_controlAdapters_at_def
      render_controlAdapters_def render_publish_at_def render_publish_def
      render_arrange_at_def render_arrange_def)

lemma finish_same:
  "finish s s m =
     (render_arrange s (render_stagingArea s (render_bbox s (render_publish s
        (render_controlAdapters s (render_inpaintMask s (render_regions s
           (render_initialImage s m))))))))
       \<lparr>prevState := s, isFirstRender := False\<rparr>"
  by (simp add: finish_def Let_def at_same)

lemma run_Nil [simp]: "run sys [] = sys"
  by (simp add: run_def)

lemma run_Cons [simp]: "run sys (ev # evs) = run (step sys ev) evs"
  by (simp add: run_def)

lemma run_append: "run sys (xs @ ys) = run (run sys xs) ys"
  by (simp add: run_def)

lemma run_idle: "pending sys = [] \<Longrightarrow> run sys (replicate k (Resume i)) = sys"
  by (induction k) simp_all

lemma run_resume:
  "run \<lparr>store = st, manager = m, pending = [\<lparr>pass_state = s, pass_rest = rest\<rparr>]\<rparr>
     (replicate (Suc (length rest)) (Resume 0))
   = \<lparr>store = st, manager = finish st s (layers_loop s rest m), pending = []\<rparr>"
proof (induction rest arbitrary: m)
  case Nil
  then show ?case by (simp add: proceed_def)
next
  case (Cons e es)
  have "step \<lparr>store = st, manager = m, pending = [\<lparr>pass_state = s, pass_rest = e # es\<rparr>]\<rparr> (Resume 0)
          = \<lparr>store = st, manager = layers_loop s [e] m,
             pending = [\<lparr>pass_state = s, pass_rest = es\<rparr>]\<rparr>"
    by (simp add: proceed_def)
  then show ?case
    using Cons.IH [of "layers_loop s [e] m"] layers_loop_Cons [of s e es m]
    by simp
qed

lemma proceed_all:
  "run \<lparr>store = st, manager = fst (proceed st \<lparr>pass_state = s, pass_rest = es\<rparr> m),
        pending = (case snd (proceed st \<lparr>pass_state = s, pass_rest = es\<rparr> m) of
                     None \<Rightarrow> [] | Some q \<Rightarrow> [q])\<rparr>
     (replicate (length es) (Resume 0))
   = \<lparr>store = st, manager = finish st s (layers_loop s es m), pending = []\<rparr>"
proof (cases es)
  case Nil
  then show ?thesis by (simp add: proceed_def)
next
  case (Cons e rest)
  then show ?thesis
    using run_resume [of st "layers_loop s [e] m" s rest] layers_loop_Cons [of s e rest m]
    by (simp add: proceed_def)
qed

lemma run_alone:
  assumes "pending sys = []"
  shows "run sys (alone s) = \<lparr>store = s, manager = render s (manager sys), pending = []\<rparr>"
proof -
  let ?m = "manager sys"
  let ?k = "length (st_layers_entities s)"
  consider (fast) "st_ref (prevState ?m) = st_ref s \<and> \<not> isFirstRender ?m"
    | (skip) "\<not> (st_ref (prevState ?m) = st_ref s \<and> \<not> isFirstRender ?m)"
        "\<not> (isFirstRender ?m \<or> st_layers_entities_ref s \<noteq> st_layers_entities_ref (prevState ?m))"
    | (loop) "\<not> (st_ref (prevState ?m) = st_ref s \<and> \<not> isFirstRender ?m)"
        "isFirstRender ?m \<or> st_layers_entities_ref s \<noteq> st_layers_entities_ref (prevState ?m)"
    by blast
  then show ?thesis
  proof cases
    case fast
    then have "step sys (Dispatch s)
                 = \<lparr>store = s, manager = emit [Log ''No changes detected, skipping render''] ?m,
                    pending = []\<rparr>"
      using assms by (simp add: launch_def start_def)
    then show ?thesis
      using fast by (simp add: alone_def run_idle render_fast)
  next
    case skip
    then have "step sys (Dispatch s) = \<lparr>store = s, manager = finish s s ?m, pending = []\<rparr>"
      using assms by (simp add: launch_def start_def)
    moreover have "render_layers s ?m = ?m"
      using skip(2) by (simp add: render_layers_def)
    ultimately show ?thesis
      using skip(1) by (simp add: alone_def run_idle render_slow finish_same)
  next
    case loop
    let ?m1 = "emit [Log ''Rendering layers''] ?m"
    obtain al effs where d:
      "destroy_loop layer (st_layers_entities s) (layers ?m1) (layers ?m1, []) = (al, effs)"
      by (cases "destroy_loop layer (st_layers_entities s) (layers ?m1) (layers ?m1, [])")
    let ?m2 = "emit effs (?m1\<lparr>layers := al\<rparr>)"
    let ?p = "proceed s \<lparr>pass_state = s, pass_rest = st_layers_entities s\<rparr> ?m2"
    have "start s ?m = ?p"
      using loop d by (auto simp: start_def Let_def)
    then have "step sys (Dispatch s)
                 = \<lparr>store = s, manager = fst ?p,
                    pending = (case snd ?p of None \<Rightarrow> [] | Some q \<Rightarrow> [q])\<rparr>"
      using assms by (simp add: launch_def split: prod.splits)
    then have "run sys (alone s)
                 = \<lparr>store = s, manager = finish s s (layers_loop s (st_layers_entities s) ?m2),
                    pending = []\<rparr>"
      using proceed_all [of s s "st_layers_entities s" ?m2] by (simp add: alone_def)
    moreover have "layers_loop s (st_layers_entities s) ?m2 = renderLayers s ?m1"
      using renderLayers_split [of s ?m1 al effs] d by simp
    moreover have "render_layers s ?m = renderLayers s ?m1"
      using loop(2) by (simp add: render_layers_def)
    ultimately show ?thesis
      using loop(1) by (simp add: render_slow finish_same)
  qed
qed

lemma in_turn_Cons: "in_turn (s # ss) = alone s @ in_turn ss"
  by (simp add: in_turn_def)

lemma run_in_turn:
  assumes "ss \<noteq> []" and "pending sys = []" and "reconciled (manager sys)"
    and "isFirstRender (manager sys) \<or> same_heap (prevState (manager sys)) (hd ss)"
    and "same_heap_seq ss"
  shows "pending (run sys (in_turn ss)) = [] \<and> store (run sys (in_turn ss)) = last ss
         \<and> reconciled (manager (run sys (in_turn ss)))
         \<and> \<not> isFirstRender (manager (run sys (in_turn ss)))
         \<and> prevState (manager (run sys (in_turn ss))) = last ss"
  using assms
proof (induction ss arbitrary: sys)
  case Nil
  then show ?case by simp
next
  case (Cons s ss)
  let ?sys = "run sys (alone s)"
  have alone: "?sys = \<lparr>store = s, manager = render s (manager sys), pending = []\<rparr>"
    by (rule run_alone [OF Cons.prems(2)])
  from Cons.prems(3,4) have one:
    "reconciled (render s (manager sys)) \<and> \<not> isFirstRender (render s (manager sys))
     \<and> prevState (render s (manager sys)) = s"
    by (simp add: render_reconciled)
  show ?case
  proof (cases ss)
    case Nil
    with one alone show ?thesis
      by (simp add: in_turn_def)
  next
    case (Cons s' ss')
    with Cons.prems(5) have "same_heap s s'" and "same_heap_seq ss"
      by simp_all
    with one alone Cons have "pending (run ?sys (in_turn ss)) = [] \<and> store (run ?sys (in_turn ss)) = last ss
         \<and> reconciled (manager (run ?sys (in_turn ss)))
         \<and> \<not> isFirstRender (manager (run ?sys (in_turn ss)))
         \<and> prevState (manager (run ?sys (in_turn ss))) = last ss"
      by (intro Cons.IH) simp_all
    with Cons show ?thesis
      by (simp add: in_turn_Cons run_append)
  qed
qed

subsection \<open>Passes in turn and passes that overlap\<close>

text \<open>
  Claim C1, as stated, fails. The store emits \<open>scene None\<close> (layers \<^verbatim>\<open>L1\<close>,
  \<^verbatim>\<open>L2\<close>) and then \<open>scene_one\<close> (layer \<^verbatim>\<open>L1\<close>), and the two passes overlap as
  in \<open>overlapped\<close>: the second pass runs its destroy loop while only \<^verbatim>\<open>L1\<close> has
  an adapter, and the first pass makes the adapter of \<^verbatim>\<open>L2\<close> afterwards. When
  both passes have ended, the store holds \<open>scene_one\<close> and the collection holds
  adapters for \<^verbatim>\<open>L1\<close> and \<^verbatim>\<open>L2\<close>.
\<close>

theorem collections_overlap_counterexample:
  "same_heap_seq [scene None, scene_one]
   \<and> pending overlapped = []
   \<and> st_ref (store overlapped) = st_ref scene_one
   \<and> ids (st_layers_entities (store overlapped)) = [''L1'']
   \<and> keys (layers (manager overlapped)) = [''L1'', ''L2'']
   \<and> \<not> mirrors (st_layers_entities (store overlapped)) (layers (manager overlapped))"
proof -
  have heap: "same_heap_seq [scene None, scene_one]"
    by (simp add: same_heap_def scene_one_def scene_def snapshot_def)
  have p: "pending overlapped = []"
    by code_simp
  have r: "st_ref (store overlapped) = st_ref scene_one"
    by code_simp
  have i: "ids (st_layers_entities (store overlapped)) = [''L1'']"
    by code_simp
  have k: "keys (layers (manager overlapped)) = [''L1'', ''L2'']"
    by code_simp
  from i k have "\<not> mirrors (st_layers_entities (store overlapped)) (layers (manager overlapped))"
    by (simp add: mirrors_def)
  with heap p r i k show ?thesis
    by simp
qed

text \<open>
  Claim C1, amended. Take a new manager and any sequence of snapshots in which
  each snapshot and its successor hold equal lists wherever they hold the same
  reference. When the store emits them and every pass of \<^verbatim>\<open>render\<close> has ended
  before the next snapshot arrives, then after the last pass no pass is pending and
  every collection mirrors its entity list in the snapshot of the store: the set of
  its keys is the set of the ids of the list, each adapter is stored under its own
  id, and no key occurs twice.
\<close>

theorem collections_converge_in_turn:
  assumes "ss \<noteq> []" and "same_heap_seq ss"
  shows "pending (run (boot s0) (in_turn ss)) = []
       \<and> store (run (boot s0) (in_turn ss)) = last ss
       \<and> mirrors (st_layers_entities (last ss)) (layers (manager (run (boot s0) (in_turn ss))))
       \<and> mirrors (st_controlAdapters_entities (last ss))
           (controlAdapters (manager (run (boot s0) (in_turn ss))))
       \<and> mirrors (st_regions_entities (last ss)) (regions (manager (run (boot s0) (in_turn ss))))"
proof -
  have "pending (boot s0) = []" and "reconciled (manager (boot s0))"
    and "isFirstRender (manager (boot s0))"
    by (simp_all add: boot_def reconciled_new) (simp add: CanvasManager_new_def)
  with run_in_turn [OF assms(1), of "boot s0"] assms(2) show ?thesis
    by (auto simp: reconciled_def)
qed

text \<open>
  The two snapshots of the counterexample, each pass ending before the next
  snapshot: the collection of the layers ends with \<^verbatim>\<open>L1\<close> alone. So it does
  when the store notifies once more without a change.
\<close>

theorem collections_converge_in_turn_witness:
  "[scene None, scene_one, scene_one] \<noteq> []
   \<and> same_heap_seq [scene None, scene_one, scene_one]
   \<and> pending (run (boot (scene None)) (in_turn [scene None, scene_one, scene_one])) = []
   \<and> mirrors [entity ''L1'' layer 0]
       (layers (manager (run (boot (scene None)) (in_turn [scene None, scene_one, scene_one]))))
   \<and> mirrors [entity ''C1'' control_adapter 0]
       (controlAdapters (manager (run (boot (scene None)) (in_turn [scene None, scene_one, scene_one]))))
   \<and> mirrors [entity ''R1'' regional_guidance 0]
       (regions (manager (run (boot (scene None)) (in_turn [scene None, scene_one, scene_one]))))
   \<and> keys (layers (manager (run (boot (scene None)) (in_turn [scene None, scene_one]))))
       = [''L1'']
   \<and> keys (layers (manager (run (boot (scene None)) (in_turn [scene None, scene_one, scene_one]))))
       = [''L1'']"
proof -
  have ne: "[scene None, scene_one, scene_one] \<noteq> []"
    by simp
  have heap: "same_heap_seq [scene None, scene_one, scene_one]"
    by (simp add: same_heap_def scene_one_def scene_def snapshot_def)
  have last: "st_layers_entities scene_one = [entity ''L1'' layer 0]"
    "st_controlAdapters_entities scene_one = [entity ''C1'' control_adapter 0]"
    "st_regions_entities scene_one = [entity ''R1'' regional_guidance 0]"
    by (simp_all add: scene_one_def scene_def snapshot_def)
  have two: "keys (layers (manager (run (boot (scene None)) (in_turn [scene None, scene_one]))))
       = [''L1'']"
    by code_simp
  have three: "keys (layers (manager (run (boot (scene None)) (in_turn [scene None, scene_one, scene_one]))))
       = [''L1'']"
    by code_simp
  from collections_converge_in_turn [OF ne heap, of "scene None"] ne heap two three show ?thesis
    by (simp add: last)
qed

subsection \<open>Rendering twice\<close>

lemma step_Call_fast:
  "st_ref (prevState (manager sys)) = st_ref (store sys) \<and> \<not> isFirstRender (manager sys) \<Longrightarrow>
   step sys Call
     = sys\<lparr>manager := (manager sys)\<lparr>effects := effects (manager sys)
                          @ [Log ''No changes detected, skipping render'']\<rparr>\<rparr>"
  by (simp add: launch_def start_def emit_def)

text \<open>
  Claim C2, as stated, fails in its second sentence. After the overlapping
  passes of \<open>overlapped\<close>, which have both ended, the store still holds the
  snapshot of the latest call of \<^verbatim>\<open>render\<close>; one more call destroys the adapter
  of \<^verbatim>\<open>L2\<close> and updates that of \<^verbatim>\<open>L1\<close>, because the older pass ended last and
  left its own snapshot in \<^verbatim>\<open>this._prevState\<close>. And on a new manager, a second
  call of \<^verbatim>\<open>render\<close> made while the first pass is suspended updates the adapter
  of \<^verbatim>\<open>L1\<close> again.
\<close>

theorem render_twice_overlap_counterexample:
  "pending overlapped = []
   \<and> st_ref (store overlapped) = st_ref scene_one
   \<and> st_ref (prevState (manager overlapped)) = st_ref (scene None)
   \<and> adapter_calls (drop (length (effects (manager overlapped)))
                         (effects (manager (step overlapped Call))))
       = [Destroy layer ''L2'' 2,
          Update 1 (entity ''L1'' layer 0) \<lparr>tool_selected = ''brush'', tool_fill = fill_tool\<rparr> False]
   \<and> adapter_calls (effects (manager (run (boot (scene None)) [Dispatch (scene None)])))
       = [New layer ''L1'' 1,
          Update 1 (entity ''L1'' layer 0) \<lparr>tool_selected = ''brush'', tool_fill = fill_tool\<rparr> False]
   \<and> adapter_calls (effects (manager (run (boot (scene None)) [Dispatch (scene None), Call])))
       = [New layer ''L1'' 1,
          Update 1 (entity ''L1'' layer 0) \<lparr>tool_selected = ''brush'', tool_fill = fill_tool\<rparr> False,
          Update 1 (entity ''L1'' layer 0) \<lparr>tool_selected = ''brush'', tool_fill = fill_tool\<rparr> False]"
proof -
  have a: "pending overlapped = []"
    by code_simp
  have b: "st_ref (store overlapped) = st_ref scene_one"
    by code_simp
  have c: "st_ref (prevState (manager overlapped)) = st_ref (scene None)"
    by code_simp
  have d: "adapter_calls (drop (length (effects (manager overlapped)))
                         (effects (manager (step overlapped Call))))
       = [Destroy layer ''L2'' 2,
          Update 1 (entity ''L1'' layer 0) \<lparr>tool_selected = ''brush'', tool_fill = fill_tool\<rparr> False]"
    by code_simp
  have e: "adapter_calls (effects (manager (run (boot (scene None)) [Dispatch (scene None)])))
       = [New layer ''L1'' 1,
          Update 1 (entity ''L1'' layer 0) \<lparr>tool_selected = ''brush'', tool_fill = fill_tool\<rparr> False]"
    by code_simp
  have f: "adapter_calls (effects (manager (run (boot (scene None)) [Dispatch (scene None), Call])))
       = [New layer ''L1'' 1,
          Update 1 (entity ''L1'' layer 0) \<lparr>tool_selected = ''brush'', tool_fill = fill_tool\<rparr> False,
          Update 1 (entity ''L1'' layer 0) \<lparr>tool_selected = ''brush'', tool_fill = fill_tool\<rparr> False]"
    by code_simp
  from a b c d e f show ?thesis
    by simp
qed

text \<open>
  Claim C2, amended. When \<^verbatim>\<open>render\<close> is called while the snapshot of the store
  is the one in \<^verbatim>\<open>this._prevState\<close> and the first-render flag is cleared, it
  writes its trace message to the log and does nothing else, whatever passes are
  suspended: no adapter is made, updated or destroyed, nothing is published, no
  field of the manager changes. When no pass is suspended, the store emits a
  snapshot and the pass that this starts has run to its end with no other pass in
  between, a further call of \<^verbatim>\<open>render\<close> without a change of the store is such a
  call.
\<close>

theorem render_twice_in_turn:
  "(st_ref (prevState (manager sys)) = st_ref (store sys) \<and> \<not> isFirstRender (manager sys)
      \<longrightarrow> step sys Call
            = sys\<lparr>manager := (manager sys)\<lparr>effects := effects (manager sys)
                                 @ [Log ''No changes detected, skipping render'']\<rparr>\<rparr>)
   \<and> (pending sys = []
      \<longrightarrow> step (run sys (alone s)) Call
            = \<lparr>store = s,
               manager = (render s (manager sys))
                  \<lparr>effects := effects (render s (manager sys))
                                @ [Log ''No changes detected, skipping render'']\<rparr>,
               pending = []\<rparr>
          \<and> run sys (alone s) = \<lparr>store = s, manager = render s (manager sys), pending = []\<rparr>)"
proof (intro conjI impI)
  assume "st_ref (prevState (manager sys)) = st_ref (store sys) \<and> \<not> isFirstRender (manager sys)"
  then show "step sys Call
            = sys\<lparr>manager := (manager sys)\<lparr>effects := effects (manager sys)
                                 @ [Log ''No changes detected, skipping render'']\<rparr>\<rparr>"
    by (rule step_Call_fast)
next
  assume idle: "pending sys = []"
  show alone: "run sys (alone s) = \<lparr>store = s, manager = render s (manager sys), pending = []\<rparr>"
    by (rule run_alone [OF idle])
  let ?sys = "\<lparr>store = s, manager = render s (manager sys), pending = []\<rparr>"
  from render_done [of s "manager sys"]
  have "st_ref (prevState (manager ?sys)) = st_ref (store ?sys) \<and> \<not> isFirstRender (manager ?sys)"
    by simp
  from step_Call_fast [OF this]
  show "step (run sys (alone s)) Call
            = \<lparr>store = s,
               manager = (render s (manager sys))
                  \<lparr>effects := effects (render s (manager sys))
                                @ [Log ''No changes detected, skipping render'']\<rparr>,
               pending = []\<rparr>"
    unfolding alone by (simp del: step.simps)
qed

text \<open>
  The manager of the example scene has rendered \<open>scene None\<close> and no pass is
  suspended: a further call only logs. On a new manager the store emits
  \<open>scene None\<close> and the pass ends; a further call makes, updates and destroys no
  adapter.
\<close>

theorem render_twice_in_turn_witness:
  "step \<lparr>store = scene None, manager = scene_manager None, pending = []\<rparr> Call
     = \<lparr>store = scene None,
        manager = (scene_manager None)\<lparr>effects := [Log ''No changes detected, skipping render'']\<rparr>,
        pending = []\<rparr>
   \<and> pending (boot (scene None)) = []
   \<and> effects (manager (step (run (boot (scene None)) (alone (scene None))) Call))
       = effects (manager (run (boot (scene None)) (alone (scene None))))
           @ [Log ''No changes detected, skipping render'']
   \<and> adapter_calls (drop (length (effects (manager (run (boot (scene None)) (alone (scene None))))))
        (effects (manager (step (run (boot (scene None)) (alone (scene None))) Call)))) = []"
proof -
  let ?sys = "\<lparr>store = scene None, manager = scene_manager None, pending = []\<rparr>"
  have pre: "st_ref (prevState (manager ?sys)) = st_ref (store ?sys)
             \<and> \<not> isFirstRender (manager ?sys)"
    and eff: "effects (scene_manager None) = []"
    by (simp_all add: scene_manager_def)
  have idle: "pending (boot (scene None)) = []"
    by (simp add: boot_def)
  note one = render_twice_in_turn [where sys = ?sys, THEN conjunct1, THEN mp, OF pre]
  note two = render_twice_in_turn [where sys = "boot (scene None)" and s = "scene None",
      THEN conjunct2, THEN mp, OF idle]
  let ?run = "run (boot (scene None)) (alone (scene None))"
  have m: "manager ?run = render (scene None) (manager (boot (scene None)))"
    using two [THEN conjunct2] by simp
  have e: "effects (manager (step ?run Call))
             = effects (manager ?run) @ [Log ''No changes detected, skipping render'']"
    unfolding m using two [THEN conjunct1] by (simp del: step.simps)
  have "step ?sys Call
     = \<lparr>store = scene None,
        manager = (scene_manager None)\<lparr>effects := [Log ''No changes detected, skipping render'']\<rparr>,
        pending = []\<rparr>"
    using one eff by (simp del: step.simps)
  with idle e show ?thesis
    by (simp del: step.simps add: adapter_calls_def)
qed

end
